theory Spec2Isabelle
  imports Main "HOL-Library.Word" "HOL-Library.Char_ord" "HOL-Library.List_Lexorder"
begin

section \<open>The battery snapshot\<close>

text \<open>
  \<^verbatim>\<open>battery_info.h\<close> declares \<^verbatim>\<open>BatteryInfo\<close> as a struct of ten C \<^verbatim>\<open>int\<close> fields.
  A C \<^verbatim>\<open>int\<close> on the platforms IOKit exists on is a 32-bit two's complement value; it is a
  \<open>32 word\<close> here and \<open>sint\<close> reads it as the signed number.
\<close>

type_synonym cint = "32 word"

record BatteryInfo =
  currentCapacity :: cint
  maxCapacity :: cint
  designCapacity :: cint
  cycleCount :: cint
  voltage :: cint
  amperage :: cint
  isCharging :: cint
  isPlugged :: cint
  timeToEmpty :: cint
  timeToFull :: cint

text \<open>\<^verbatim>\<open>BatteryInfo info = {0};\<close> (line 11): every field starts at zero.\<close>

definition zeroInfo :: BatteryInfo where
  "zeroInfo = \<lparr> currentCapacity = 0, maxCapacity = 0, designCapacity = 0, cycleCount = 0,
                voltage = 0, amperage = 0, isCharging = 0, isPlugged = 0,
                timeToEmpty = 0, timeToFull = 0 \<rparr>"

section \<open>The platform services\<close>

text \<open>
  \<^verbatim>\<open>getBatteryInfo\<close> takes no argument; everything it reads comes from IOKit and
  CoreFoundation. The state of those services at the time of the call is the input of the
  model.

  The string constants are the ones of Apple's \<^verbatim>\<open>IOPSKeys.h\<close>, which the header includes.
\<close>

definition kIOPSInternalBatteryType :: string where
  "kIOPSInternalBatteryType = ''InternalBattery''"

definition kIOPSACPowerValue :: string where
  "kIOPSACPowerValue = ''AC Power''"

datatype CFComparisonResult = kCFCompareLessThan | kCFCompareEqualTo | kCFCompareGreaterThan

text \<open>
  \<^verbatim>\<open>CFStringCompare(a, b, 0)\<close>: with no comparison option the strings are compared
  literally, character by character, so the result is \<open>kCFCompareEqualTo\<close> exactly for
  equal strings.
\<close>

definition CFStringCompare :: "string \<Rightarrow> string \<Rightarrow> CFComparisonResult" where
  "CFStringCompare a b =
     (if a = b then kCFCompareEqualTo
      else if a < b then kCFCompareLessThan
      else kCFCompareGreaterThan)"

text \<open>
  A power source's description dictionary. \<^verbatim>\<open>getBatteryInfo\<close> reads six keys of it with
  \<^verbatim>\<open>CFDictionaryGetValue\<close>, which returns \<^verbatim>\<open>NULL\<close> (here \<open>None\<close>) for a key that is
  not there. The values have the types \<^verbatim>\<open>IOPSKeys.h\<close> documents for these keys and the
  source's declarations rely on: a \<^verbatim>\<open>CFString\<close> under \<^verbatim>\<open>kIOPSTypeKey\<close> and
  \<^verbatim>\<open>kIOPSPowerSourceStateKey\<close>, a \<^verbatim>\<open>CFNumber\<close> under \<^verbatim>\<open>kIOPSCurrentCapacityKey\<close>,
  \<^verbatim>\<open>kIOPSTimeToEmptyKey\<close> and \<^verbatim>\<open>kIOPSTimeToFullChargeKey\<close>, a \<^verbatim>\<open>CFBoolean\<close> under
  \<^verbatim>\<open>kIOPSIsChargingKey\<close>. A number is given by the \<^verbatim>\<open>int\<close> that
  \<^verbatim>\<open>CFNumberGetValue(n, kCFNumberIntType, &x)\<close> stores for it. Keys the function never
  reads are left out.

  The six keys are six different strings (\<^verbatim>\<open>"Type"\<close>, \<^verbatim>\<open>"Current Capacity"\<close>,
  \<^verbatim>\<open>"Is Charging"\<close>, \<^verbatim>\<open>"Power Source State"\<close>, \<^verbatim>\<open>"Time to Empty"\<close>,
  \<^verbatim>\<open>"Time to Full Charge"\<close>), so that a lookup of one never returns the value of
  another: the dictionary is a record with one optional field for each key, in the order
  in which the function reads them.
\<close>

record PSDescription =
  psType :: "string option"
  psCurrentCapacity :: "cint option"
  psIsCharging :: "bool option"
  psPowerSourceState :: "string option"
  psTimeToEmpty :: "cint option"
  psTimeToFullCharge :: "cint option"

text \<open>
  An element of the power-sources array, as far as the function can observe it:
  what \<^verbatim>\<open>IOPSGetPowerSourceDescription(powerInfo, powerSource)\<close> returns for it.
\<close>

datatype PowerSource = PowerSource (IOPSGetPowerSourceDescription: "PSDescription option")

text \<open>
  The blob returned by \<^verbatim>\<open>IOPSCopyPowerSourcesInfo\<close>, observed through
  \<^verbatim>\<open>IOPSCopyPowerSourcesList\<close> (\<open>None\<close> is \<^verbatim>\<open>NULL\<close>).
\<close>

datatype PowerSourcesInfo = PowerSourcesInfo (IOPSCopyPowerSourcesList: "PowerSource list option")

text \<open>
  The property dictionary of the registry entry, with the five keys that are read
  (\<^verbatim>\<open>"AppleRawMaxCapacity"\<close>, \<^verbatim>\<open>"DesignCapacity"\<close>, \<^verbatim>\<open>"CycleCount"\<close>, \<^verbatim>\<open>"Voltage"\<close>,
  \<^verbatim>\<open>"Amperage"\<close>), each a \<^verbatim>\<open>CFNumber\<close> or absent.
\<close>

record RegistryProperties =
  regAppleRawMaxCapacity :: "cint option"
  regDesignCapacity :: "cint option"
  regCycleCount :: "cint option"
  regVoltage :: "cint option"
  regAmperage :: "cint option"

text \<open>
  A registry entry, observed through \<^verbatim>\<open>IORegistryEntryCreateCFProperties\<close>: \<open>Some\<close> is
  \<^verbatim>\<open>KERN_SUCCESS\<close> with the dictionary stored through the out parameter, \<open>None\<close> any
  other return code.
\<close>

datatype RegistryEntry =
  RegistryEntry (IORegistryEntryCreateCFProperties: "RegistryProperties option")

text \<open>
  The platform: the result of \<^verbatim>\<open>IOPSCopyPowerSourcesInfo()\<close> (\<open>None\<close> is \<^verbatim>\<open>NULL\<close>) and
  the result of \<^verbatim>\<open>IOServiceGetMatchingService\<close> for \<^verbatim>\<open>"IOPMPowerSource"\<close> (\<open>None\<close> is
  the null entry \<^verbatim>\<open>0\<close>).
\<close>

record Platform =
  IOPSCopyPowerSourcesInfo :: "PowerSourcesInfo option"
  IOServiceGetMatchingService :: "RegistryEntry option"

section \<open>Handles and the trace of a call\<close>

text \<open>
  The four objects the function owns after a successful call and has to give back: the
  blob \<^verbatim>\<open>powerInfo\<close> and the array \<^verbatim>\<open>powerSources\<close> (Copy rule, \<^verbatim>\<open>CFRelease\<close>), the
  registry entry (\<^verbatim>\<open>IOObjectRelease\<close>) and the dictionary \<^verbatim>\<open>properties\<close> (Create rule,
  \<^verbatim>\<open>CFRelease\<close>). What \<^verbatim>\<open>CFArrayGetValueAtIndex\<close>, \<^verbatim>\<open>IOPSGetPowerSourceDescription\<close> and
  \<^verbatim>\<open>CFDictionaryGetValue\<close> return is not owned (Get rule), and the matching dictionary of
  \<^verbatim>\<open>IOServiceMatching\<close> is consumed by \<^verbatim>\<open>IOServiceGetMatchingService\<close>.
\<close>

datatype handle = H_powerInfo | H_powerSources | H_registryEntry | H_properties

text \<open>
  The events of a call, in program order: a handle is acquired (the acquiring call returned
  an object), a handle is released, the array element of an index is fetched and its
  description asked for, the registry is asked for the service.
\<close>

datatype event = Acquire handle | Release handle | Examine nat | RegistryLookup

section \<open>getBatteryInfo\<close>

text \<open>
  Lines 38 to 71: the reads from the description of the matched entry. Each is guarded by
  its own null check and writes its own field.
\<close>

definition readDescription :: "PSDescription \<Rightarrow> BatteryInfo \<Rightarrow> BatteryInfo" where
  "readDescription description info =
     (let info = (case psCurrentCapacity description of
                    None \<Rightarrow> info
                  | Some currentCap \<Rightarrow> info\<lparr>currentCapacity := currentCap\<rparr>);
          info = (if psIsCharging description = Some True
                  then info\<lparr>isCharging := 1\<rparr> else info);
          info = (case psPowerSourceState description of
                    None \<Rightarrow> info
                  | Some powerSourceState \<Rightarrow>
                      if CFStringCompare powerSourceState kIOPSACPowerValue = kCFCompareEqualTo
                      then info\<lparr>isPlugged := 1\<rparr> else info);
          info = (case psTimeToEmpty description of
                    None \<Rightarrow> info
                  | Some tte \<Rightarrow> info\<lparr>timeToEmpty := tte\<rparr>);
          info = (case psTimeToFullCharge description of
                    None \<Rightarrow> info
                  | Some ttf \<Rightarrow> info\<lparr>timeToFull := ttf\<rparr>)
      in info)"

text \<open>
  Lines 26 to 75: the loop \<^verbatim>\<open>for (i = 0; i < count; i++)\<close>, from index \<open>i\<close> on. An entry
  with no description is skipped (\<^verbatim>\<open>continue\<close>), so is one with no type or another type;
  the first entry of type internal battery is read and ends the loop (\<^verbatim>\<open>break\<close>).
\<close>

function scanPowerSources ::
  "PowerSource list \<Rightarrow> nat \<Rightarrow> BatteryInfo \<times> event list \<Rightarrow> BatteryInfo \<times> event list" where
  "scanPowerSources powerSources i (info, tr) =
     (if i < length powerSources then
        (let powerSource = powerSources ! i;
             tr = tr @ [Examine i]
         in case IOPSGetPowerSourceDescription powerSource of
              None \<Rightarrow> scanPowerSources powerSources (i + 1) (info, tr)
            | Some description \<Rightarrow>
                (case psType description of
                   None \<Rightarrow> scanPowerSources powerSources (i + 1) (info, tr)
                 | Some type \<Rightarrow>
                     if CFStringCompare type kIOPSInternalBatteryType = kCFCompareEqualTo
                     then (readDescription description info, tr)
                     else scanPowerSources powerSources (i + 1) (info, tr)))
      else (info, tr))"
  by pat_completeness auto
termination
  by (relation "measure (\<lambda>(powerSources, i, s). length powerSources - i)") auto

text \<open>
  Lines 81 to 119: the registry phase. Five reads, each guarded by its own null check;
  the dictionary is released when it was created, the entry when it was found.
\<close>

definition readProperties :: "RegistryProperties \<Rightarrow> BatteryInfo \<Rightarrow> BatteryInfo" where
  "readProperties properties info =
     (let info = (case regAppleRawMaxCapacity properties of
                    None \<Rightarrow> info
                  | Some maxCap \<Rightarrow> info\<lparr>maxCapacity := maxCap\<rparr>);
          info = (case regDesignCapacity properties of
                    None \<Rightarrow> info
                  | Some designCap \<Rightarrow> info\<lparr>designCapacity := designCap\<rparr>);
          info = (case regCycleCount properties of
                    None \<Rightarrow> info
                  | Some cycles \<Rightarrow> info\<lparr>cycleCount := cycles\<rparr>);
          info = (case regVoltage properties of
                    None \<Rightarrow> info
                  | Some v \<Rightarrow> info\<lparr>voltage := v\<rparr>);
          info = (case regAmperage properties of
                    None \<Rightarrow> info
                  | Some a \<Rightarrow> info\<lparr>amperage := a\<rparr>)
      in info)"

definition readRegistry :: "Platform \<Rightarrow> BatteryInfo \<times> event list \<Rightarrow> BatteryInfo \<times> event list" where
  "readRegistry p s =
     (case s of (info, tr) \<Rightarrow>
        (let tr = tr @ [RegistryLookup]
         in case IOServiceGetMatchingService p of
              None \<Rightarrow> (info, tr)
            | Some powerSource \<Rightarrow>
                (let tr = tr @ [Acquire H_registryEntry]
                 in case IORegistryEntryCreateCFProperties powerSource of
                      None \<Rightarrow> (info, tr @ [Release H_registryEntry])
                    | Some properties \<Rightarrow>
                        (readProperties properties info,
                         tr @ [Acquire H_properties, Release H_properties,
                               Release H_registryEntry]))))"

text \<open>
  The whole function: the snapshot it returns and the trace of the call. The two early
  returns of lines 15 to 23 come first; after the loop the array and the blob are released
  (lines 77 and 78) and the registry phase follows.
\<close>

definition getBatteryInfo :: "Platform \<Rightarrow> BatteryInfo \<times> event list" where
  "getBatteryInfo p =
     (let info = zeroInfo
      in case IOPSCopyPowerSourcesInfo p of
           None \<Rightarrow> (info, [])
         | Some powerInfo \<Rightarrow>
             (let tr = [Acquire H_powerInfo]
              in case IOPSCopyPowerSourcesList powerInfo of
                   None \<Rightarrow> (info, tr @ [Release H_powerInfo])
                 | Some powerSources \<Rightarrow>
                     (let tr = tr @ [Acquire H_powerSources];
                          (info, tr) = scanPowerSources powerSources 0 (info, tr);
                          tr = tr @ [Release H_powerSources, Release H_powerInfo]
                      in readRegistry p (info, tr))))"

section \<open>Notions the specification speaks of\<close>

text \<open>
  An entry of the list \<^emph>\<open>is an internal battery\<close> when it has a description whose type is
  the internal-battery type. The \<^emph>\<open>matched description\<close> of a list is the description of
  its first such entry.
\<close>

definition isInternalBattery :: "PowerSource \<Rightarrow> bool" where
  "isInternalBattery s =
     (case IOPSGetPowerSourceDescription s of
        None \<Rightarrow> False
      | Some description \<Rightarrow> psType description = Some kIOPSInternalBatteryType)"

definition matchedDescription :: "PowerSource list \<Rightarrow> PSDescription option" where
  "matchedDescription powerSources =
     (case find isInternalBattery powerSources of
        None \<Rightarrow> None
      | Some s \<Rightarrow> IOPSGetPowerSourceDescription s)"

text \<open>
  The list a platform enumerates (when both the blob and the list are available), the
  property dictionary of its registry entry (when the service is found and the dictionary
  can be read), and the description of its first internal battery.
\<close>

definition listedSources :: "Platform \<Rightarrow> PowerSource list option" where
  "listedSources p =
     (case IOPSCopyPowerSourcesInfo p of
        None \<Rightarrow> None
      | Some powerInfo \<Rightarrow> IOPSCopyPowerSourcesList powerInfo)"

definition registryProperties :: "Platform \<Rightarrow> RegistryProperties option" where
  "registryProperties p =
     (case IOServiceGetMatchingService p of
        None \<Rightarrow> None
      | Some powerSource \<Rightarrow> IORegistryEntryCreateCFProperties powerSource)"

definition batteryDescription :: "Platform \<Rightarrow> PSDescription option" where
  "batteryDescription p =
     (case listedSources p of
        None \<Rightarrow> None
      | Some powerSources \<Rightarrow> matchedDescription powerSources)"

text \<open>
  The estimate a description gives under one of its two time keys: the number found there,
  and 0, the value the field of the snapshot starts with, when the key is missing.
  \<^emph>\<open>Normal operation\<close>, for the two estimates: the platform's two charge-direction estimates
  are mutually exclusive, that is, the description of the first internal battery (when
  there is one) does not give two meaningful estimates. What counts as meaningful is a
  parameter.
\<close>

definition estimateOf :: "cint option \<Rightarrow> cint" where
  "estimateOf v = (case v of None \<Rightarrow> 0 | Some n \<Rightarrow> n)"

definition normalOperation :: "(cint \<Rightarrow> bool) \<Rightarrow> Platform \<Rightarrow> bool" where
  "normalOperation meaningful p =
     (case batteryDescription p of
        None \<Rightarrow> True
      | Some d \<Rightarrow>
          \<not> (meaningful (estimateOf (psTimeToEmpty d)) \<and>
             meaningful (estimateOf (psTimeToFullCharge d))))"

text \<open>
  Discipline of handles along a trace, starting from the handles in \<open>live\<close>: a handle
  that is acquired is not live already, a handle that is released is live (so it was
  acquired before and not released since), and no handle is live at the end.
\<close>

fun handlesOk :: "handle list \<Rightarrow> event list \<Rightarrow> bool" where
  "handlesOk live [] = (live = [])"
| "handlesOk live (Acquire h # es) = (h \<notin> set live \<and> handlesOk (h # live) es)"
| "handlesOk live (Release h # es) = (h \<in> set live \<and> handlesOk (removeAll h live) es)"
| "handlesOk live (Examine i # es) = handlesOk live es"
| "handlesOk live (RegistryLookup # es) = handlesOk live es"

text \<open>The indices of the entries a trace examines, in the order of the trace.\<close>

fun examined :: "event list \<Rightarrow> nat list" where
  "examined [] = []"
| "examined (Examine i # es) = i # examined es"
| "examined (Acquire h # es) = examined es"
| "examined (Release h # es) = examined es"
| "examined (RegistryLookup # es) = examined es"

section \<open>Platform states used as examples\<close>

text \<open>
  A laptop on mains power whose list holds an entry with no description, a UPS and two
  internal batteries; the same registry with the power-source blob or the list unavailable.
\<close>

definition batteryCharging :: PSDescription where
  "batteryCharging =
     \<lparr> psType = Some ''InternalBattery'', psCurrentCapacity = Some 87,
       psIsCharging = Some True, psPowerSourceState = Some ''AC Power'',
       psTimeToEmpty = Some 0, psTimeToFullCharge = Some 45 \<rparr>"

definition batteryDraining :: PSDescription where
  "batteryDraining =
     \<lparr> psType = Some ''InternalBattery'', psCurrentCapacity = Some 12,
       psIsCharging = Some False, psPowerSourceState = Some ''Battery Power'',
       psTimeToEmpty = Some 30, psTimeToFullCharge = None \<rparr>"

definition upsDescription :: PSDescription where
  "upsDescription =
     \<lparr> psType = Some ''UPS'', psCurrentCapacity = Some 64,
       psIsCharging = Some True, psPowerSourceState = Some ''AC Power'',
       psTimeToEmpty = Some 200, psTimeToFullCharge = Some 15 \<rparr>"

definition smartBattery :: RegistryProperties where
  "smartBattery =
     \<lparr> regAppleRawMaxCapacity = Some 4382, regDesignCapacity = Some 5000,
       regCycleCount = Some 311, regVoltage = Some 12600, regAmperage = Some (- 1200) \<rparr>"

definition laptop :: Platform where
  "laptop =
     \<lparr> IOPSCopyPowerSourcesInfo =
         Some (PowerSourcesInfo (Some [PowerSource None, PowerSource (Some upsDescription),
                                       PowerSource (Some batteryCharging),
                                       PowerSource (Some batteryDraining)])),
       IOServiceGetMatchingService = Some (RegistryEntry (Some smartBattery)) \<rparr>"

definition noPowerInfo :: Platform where
  "noPowerInfo =
     \<lparr> IOPSCopyPowerSourcesInfo = None,
       IOServiceGetMatchingService = Some (RegistryEntry (Some smartBattery)) \<rparr>"

definition noSourcesList :: Platform where
  "noSourcesList =
     \<lparr> IOPSCopyPowerSourcesInfo = Some (PowerSourcesInfo None),
       IOServiceGetMatchingService = Some (RegistryEntry (Some smartBattery)) \<rparr>"

text \<open>
  A laptop whose battery description carries only the type and the current capacity, and
  whose registry dictionary carries only the cycle count.
\<close>

definition batterySparse :: PSDescription where
  "batterySparse =
     \<lparr> psType = Some ''InternalBattery'', psCurrentCapacity = Some 55,
       psIsCharging = None, psPowerSourceState = None,
       psTimeToEmpty = None, psTimeToFullCharge = None \<rparr>"

definition registrySparse :: RegistryProperties where
  "registrySparse =
     \<lparr> regAppleRawMaxCapacity = None, regDesignCapacity = None,
       regCycleCount = Some 7, regVoltage = None, regAmperage = None \<rparr>"

definition laptopSparse :: Platform where
  "laptopSparse =
     \<lparr> IOPSCopyPowerSourcesInfo =
         Some (PowerSourcesInfo (Some [PowerSource (Some batterySparse)])),
       IOServiceGetMatchingService = Some (RegistryEntry (Some registrySparse)) \<rparr>"

text \<open>
  Laptops whose registry lookup fails: the service is not found, or the entry is found and
  its property dictionary cannot be read.
\<close>

definition laptopNoService :: Platform where
  "laptopNoService =
     \<lparr> IOPSCopyPowerSourcesInfo =
         Some (PowerSourcesInfo (Some [PowerSource (Some batteryCharging)])),
       IOServiceGetMatchingService = None \<rparr>"

definition laptopNoProperties :: Platform where
  "laptopNoProperties =
     \<lparr> IOPSCopyPowerSourcesInfo =
         Some (PowerSourcesInfo (Some [PowerSource (Some batteryDraining)])),
       IOServiceGetMatchingService = Some (RegistryEntry None) \<rparr>"

text \<open>
  Machines whose list holds a UPS and no internal battery, with and without the registry
  entry.
\<close>

definition desktopUPS :: Platform where
  "desktopUPS =
     \<lparr> IOPSCopyPowerSourcesInfo =
         Some (PowerSourcesInfo (Some [PowerSource (Some upsDescription)])),
       IOServiceGetMatchingService = Some (RegistryEntry (Some smartBattery)) \<rparr>"

definition desktopNoService :: Platform where
  "desktopNoService =
     \<lparr> IOPSCopyPowerSourcesInfo =
         Some (PowerSourcesInfo (Some [PowerSource (Some upsDescription)])),
       IOServiceGetMatchingService = None \<rparr>"

text \<open>
  A laptop whose battery description reports its current capacity in another unit than
  percent.
\<close>

definition batteryOverRange :: PSDescription where
  "batteryOverRange =
     \<lparr> psType = Some ''InternalBattery'', psCurrentCapacity = Some 150,
       psIsCharging = Some False, psPowerSourceState = Some ''Battery Power'',
       psTimeToEmpty = Some 90, psTimeToFullCharge = Some 0 \<rparr>"

definition laptopOverRange :: Platform where
  "laptopOverRange =
     \<lparr> IOPSCopyPowerSourcesInfo =
         Some (PowerSourcesInfo (Some [PowerSource (Some batteryOverRange)])),
       IOServiceGetMatchingService = Some (RegistryEntry (Some smartBattery)) \<rparr>"

text \<open>A laptop on mains power with a full battery that is not charging.\<close>

definition batteryFull :: PSDescription where
  "batteryFull =
     \<lparr> psType = Some ''InternalBattery'', psCurrentCapacity = Some 100,
       psIsCharging = Some False, psPowerSourceState = Some ''AC Power'',
       psTimeToEmpty = Some 0, psTimeToFullCharge = Some 0 \<rparr>"

definition laptopFull :: Platform where
  "laptopFull =
     \<lparr> IOPSCopyPowerSourcesInfo =
         Some (PowerSourcesInfo (Some [PowerSource (Some batteryFull)])),
       IOServiceGetMatchingService = Some (RegistryEntry (Some smartBattery)) \<rparr>"

section \<open>Facts about the parts of the function\<close>

declare scanPowerSources.simps [simp del]

lemma CFStringCompare_equal [simp]:
  "(CFStringCompare a b = kCFCompareEqualTo) = (a = b)"
  by (simp add: CFStringCompare_def)

lemma scan_end:
  "\<not> i < length ps \<Longrightarrow> scanPowerSources ps i (info, tr) = (info, tr)"
  by (simp add: scanPowerSources.simps)

lemma scan_skip:
  "i < length ps \<Longrightarrow> \<not> isInternalBattery (ps ! i) \<Longrightarrow>
   scanPowerSources ps i (info, tr) = scanPowerSources ps (Suc i) (info, tr @ [Examine i])"
  by (subst scanPowerSources.simps)
     (simp add: isInternalBattery_def Let_def split: option.splits)

lemma scan_match:
  "i < length ps \<Longrightarrow> IOPSGetPowerSourceDescription (ps ! i) = Some d \<Longrightarrow>
   psType d = Some kIOPSInternalBatteryType \<Longrightarrow>
   scanPowerSources ps i (info, tr) = (readDescription d info, tr @ [Examine i])"
  by (subst scanPowerSources.simps) (simp add: Let_def)

lemma scan_prefix:
  "k \<le> length ps \<Longrightarrow> i \<le> k \<Longrightarrow> \<forall>j. i \<le> j \<and> j < k \<longrightarrow> \<not> isInternalBattery (ps ! j) \<Longrightarrow>
   scanPowerSources ps i (info, tr) = scanPowerSources ps k (info, tr @ map Examine [i..<k])"
proof (induction k)
  case 0
  then show ?case by simp
next
  case (Suc k)
  show ?case
  proof (cases "i = Suc k")
    case True
    then show ?thesis by simp
  next
    case False
    with Suc.prems have ik: "i \<le> k" and kl: "k < length ps" by simp_all
    from Suc.prems have nb: "\<not> isInternalBattery (ps ! k)" using ik by simp
    have "scanPowerSources ps i (info, tr) = scanPowerSources ps k (info, tr @ map Examine [i..<k])"
      using Suc.IH Suc.prems ik kl by simp
    also have "\<dots> = scanPowerSources ps (Suc k) (info, (tr @ map Examine [i..<k]) @ [Examine k])"
      by (rule scan_skip [OF kl nb])
    finally show ?thesis using ik by simp
  qed
qed

lemma scan_none:
  assumes "\<forall>s \<in> set ps. \<not> isInternalBattery s"
  shows "scanPowerSources ps 0 (info, tr) = (info, tr @ map Examine [0..<length ps])"
proof -
  have "scanPowerSources ps 0 (info, tr) =
        scanPowerSources ps (length ps) (info, tr @ map Examine [0..<length ps])"
    using assms by (intro scan_prefix) simp_all
  then show ?thesis by (simp add: scan_end)
qed

lemma scan_first:
  assumes "\<forall>s \<in> set pre. \<not> isInternalBattery s"
    and "IOPSGetPowerSourceDescription e = Some d"
    and "psType d = Some kIOPSInternalBatteryType"
  shows "scanPowerSources (pre @ e # post) 0 (info, tr) =
         (readDescription d info, tr @ map Examine [0..<Suc (length pre)])"
proof -
  let ?ps = "pre @ e # post"
  have "scanPowerSources ?ps 0 (info, tr) =
        scanPowerSources ?ps (length pre) (info, tr @ map Examine [0..<length pre])"
    using assms(1) by (intro scan_prefix) (simp_all add: nth_append)
  also have "\<dots> = (readDescription d info, (tr @ map Examine [0..<length pre]) @ [Examine (length pre)])"
    using assms(2,3) by (intro scan_match) simp_all
  finally show ?thesis by simp
qed

lemma find_split:
  "find P xs = Some e \<Longrightarrow> \<exists>pre post. xs = pre @ e # post \<and> (\<forall>x \<in> set pre. \<not> P x) \<and> P e"
proof (induction xs)
  case Nil
  then show ?case by simp
next
  case (Cons x xs)
  show ?case
  proof (cases "P x")
    case True
    with Cons.prems have "x = e" by simp
    with True have "x # xs = [] @ e # xs \<and> (\<forall>x \<in> set []. \<not> P x) \<and> P e" by simp
    then show ?thesis by blast
  next
    case False
    with Cons obtain pre post where "xs = pre @ e # post" "\<forall>x \<in> set pre. \<not> P x" "P e"
      by auto
    with False have "x # xs = (x # pre) @ e # post \<and> (\<forall>y \<in> set (x # pre). \<not> P y) \<and> P e"
      by simp
    then show ?thesis by blast
  qed
qed

lemma matchedDescription_None:
  "(matchedDescription ps = None) = (\<forall>s \<in> set ps. \<not> isInternalBattery s)"
  by (auto simp: matchedDescription_def find_None_iff isInternalBattery_def
           split: option.splits dest: find_split)

lemma matchedDescription_Some:
  assumes "matchedDescription ps = Some d"
  shows "\<exists>pre e post. ps = pre @ e # post \<and> (\<forall>s \<in> set pre. \<not> isInternalBattery s) \<and>
           IOPSGetPowerSourceDescription e = Some d \<and> psType d = Some kIOPSInternalBatteryType"
proof -
  from assms obtain e where f: "find isInternalBattery ps = Some e"
    and d: "IOPSGetPowerSourceDescription e = Some d"
    by (auto simp: matchedDescription_def split: option.splits)
  from find_split [OF f] obtain pre post where
    "ps = pre @ e # post" "\<forall>s \<in> set pre. \<not> isInternalBattery s" "isInternalBattery e"
    by blast
  with d show ?thesis by (auto simp: isInternalBattery_def)
qed

lemma matchedDescription_first:
  assumes "\<forall>s \<in> set pre. \<not> isInternalBattery s"
    and "IOPSGetPowerSourceDescription e = Some d"
    and "psType d = Some kIOPSInternalBatteryType"
  shows "matchedDescription (pre @ e # post) = Some d"
proof -
  have "isInternalBattery e" using assms(2,3) by (simp add: isInternalBattery_def)
  with assms(1) have "find isInternalBattery (pre @ e # post) = Some e"
    by (induction pre) simp_all
  then show ?thesis using assms(2) by (simp add: matchedDescription_def)
qed

lemma scan_info:
  "fst (scanPowerSources ps 0 (info, tr)) =
     (case matchedDescription ps of None \<Rightarrow> info | Some d \<Rightarrow> readDescription d info)"
proof (cases "matchedDescription ps")
  case None
  then have nb: "\<forall>s \<in> set ps. \<not> isInternalBattery s" by (simp add: matchedDescription_None)
  show ?thesis by (simp add: None scan_none [OF nb])
next
  case (Some d)
  from matchedDescription_Some [OF Some] obtain pre e post where
    "ps = pre @ e # post" "\<forall>s \<in> set pre. \<not> isInternalBattery s"
    "IOPSGetPowerSourceDescription e = Some d" "psType d = Some kIOPSInternalBatteryType"
    by blast
  then show ?thesis using Some by (simp add: scan_first)
qed

lemma scan_trace:
  "\<exists>k \<le> length ps. snd (scanPowerSources ps 0 (info, tr)) = tr @ map Examine [0..<k]"
proof (cases "matchedDescription ps")
  case None
  then have "snd (scanPowerSources ps 0 (info, tr)) = tr @ map Examine [0..<length ps]"
    by (simp add: matchedDescription_None scan_none)
  then show ?thesis by blast
next
  case (Some d)
  from matchedDescription_Some [OF Some] obtain pre e post where ps: "ps = pre @ e # post"
    and *: "\<forall>s \<in> set pre. \<not> isInternalBattery s"
    "IOPSGetPowerSourceDescription e = Some d" "psType d = Some kIOPSInternalBatteryType"
    by blast
  have "snd (scanPowerSources ps 0 (info, tr)) = tr @ map Examine [0..<Suc (length pre)]"
    unfolding ps by (simp only: scan_first [OF *] snd_conv)
  moreover have "Suc (length pre) \<le> length ps" by (simp add: ps)
  ultimately show ?thesis by blast
qed

lemma readDescription_fields:
  "currentCapacity (readDescription d info) =
     (case psCurrentCapacity d of None \<Rightarrow> currentCapacity info | Some n \<Rightarrow> n)"
  "isCharging (readDescription d info) = (if psIsCharging d = Some True then 1 else isCharging info)"
  "isPlugged (readDescription d info) =
     (if psPowerSourceState d = Some kIOPSACPowerValue then 1 else isPlugged info)"
  "timeToEmpty (readDescription d info) =
     (case psTimeToEmpty d of None \<Rightarrow> timeToEmpty info | Some n \<Rightarrow> n)"
  "timeToFull (readDescription d info) =
     (case psTimeToFullCharge d of None \<Rightarrow> timeToFull info | Some n \<Rightarrow> n)"
  "maxCapacity (readDescription d info) = maxCapacity info"
  "designCapacity (readDescription d info) = designCapacity info"
  "cycleCount (readDescription d info) = cycleCount info"
  "voltage (readDescription d info) = voltage info"
  "amperage (readDescription d info) = amperage info"
  by (simp_all add: readDescription_def Let_def split: option.splits)

lemma readProperties_fields:
  "maxCapacity (readProperties r info) =
     (case regAppleRawMaxCapacity r of None \<Rightarrow> maxCapacity info | Some n \<Rightarrow> n)"
  "designCapacity (readProperties r info) =
     (case regDesignCapacity r of None \<Rightarrow> designCapacity info | Some n \<Rightarrow> n)"
  "cycleCount (readProperties r info) =
     (case regCycleCount r of None \<Rightarrow> cycleCount info | Some n \<Rightarrow> n)"
  "voltage (readProperties r info) =
     (case regVoltage r of None \<Rightarrow> voltage info | Some n \<Rightarrow> n)"
  "amperage (readProperties r info) =
     (case regAmperage r of None \<Rightarrow> amperage info | Some n \<Rightarrow> n)"
  "currentCapacity (readProperties r info) = currentCapacity info"
  "isCharging (readProperties r info) = isCharging info"
  "isPlugged (readProperties r info) = isPlugged info"
  "timeToEmpty (readProperties r info) = timeToEmpty info"
  "timeToFull (readProperties r info) = timeToFull info"
  by (simp_all add: readProperties_def Let_def split: option.splits)

lemma zeroInfo_fields:
  "currentCapacity zeroInfo = 0" "maxCapacity zeroInfo = 0" "designCapacity zeroInfo = 0"
  "cycleCount zeroInfo = 0" "voltage zeroInfo = 0" "amperage zeroInfo = 0"
  "isCharging zeroInfo = 0" "isPlugged zeroInfo = 0" "timeToEmpty zeroInfo = 0"
  "timeToFull zeroInfo = 0"
  by (simp_all add: zeroInfo_def)

lemma readRegistry_info:
  "fst (readRegistry p (info, tr)) =
     (case registryProperties p of None \<Rightarrow> info | Some r \<Rightarrow> readProperties r info)"
  by (simp add: readRegistry_def registryProperties_def Let_def split: option.splits)

lemma readRegistry_trace:
  "snd (readRegistry p (info, tr)) =
     tr @ RegistryLookup #
       (case IOServiceGetMatchingService p of
          None \<Rightarrow> []
        | Some e \<Rightarrow>
            Acquire H_registryEntry #
              (case IORegistryEntryCreateCFProperties e of
                 None \<Rightarrow> []
               | Some r \<Rightarrow> [Acquire H_properties, Release H_properties]) @
              [Release H_registryEntry])"
  by (simp add: readRegistry_def Let_def split: option.splits)

lemma getBatteryInfo_noInfo:
  "IOPSCopyPowerSourcesInfo p = None \<Longrightarrow> getBatteryInfo p = (zeroInfo, [])"
  by (simp add: getBatteryInfo_def)

lemma getBatteryInfo_noList:
  "IOPSCopyPowerSourcesInfo p = Some powerInfo \<Longrightarrow> IOPSCopyPowerSourcesList powerInfo = None \<Longrightarrow>
   getBatteryInfo p = (zeroInfo, [Acquire H_powerInfo, Release H_powerInfo])"
  by (simp add: getBatteryInfo_def)

lemma getBatteryInfo_listed:
  assumes "listedSources p = Some ps"
  shows "getBatteryInfo p =
     readRegistry p
       (fst (scanPowerSources ps 0 (zeroInfo, [Acquire H_powerInfo, Acquire H_powerSources])),
        snd (scanPowerSources ps 0 (zeroInfo, [Acquire H_powerInfo, Acquire H_powerSources])) @
          [Release H_powerSources, Release H_powerInfo])"
  using assms
  by (auto simp: getBatteryInfo_def listedSources_def Let_def case_prod_beta split: option.splits)

lemma getBatteryInfo_unlisted:
  "listedSources p = None \<Longrightarrow> fst (getBatteryInfo p) = zeroInfo"
  by (simp add: getBatteryInfo_def listedSources_def split: option.splits)

lemma getBatteryInfo_info:
  assumes "listedSources p = Some ps"
  shows "fst (getBatteryInfo p) =
     (let info = (case matchedDescription ps of
                    None \<Rightarrow> zeroInfo
                  | Some d \<Rightarrow> readDescription d zeroInfo)
      in case registryProperties p of
           None \<Rightarrow> info
         | Some r \<Rightarrow> readProperties r info)"
  by (simp add: getBatteryInfo_listed [OF assms] readRegistry_info scan_info Let_def)

lemma batteryDescription_None_fields:
  assumes "batteryDescription p = None"
  shows "currentCapacity (fst (getBatteryInfo p)) = 0 \<and> isCharging (fst (getBatteryInfo p)) = 0 \<and>
         isPlugged (fst (getBatteryInfo p)) = 0 \<and> timeToEmpty (fst (getBatteryInfo p)) = 0 \<and>
         timeToFull (fst (getBatteryInfo p)) = 0"
proof (cases "listedSources p")
  case None
  then show ?thesis by (simp add: getBatteryInfo_unlisted zeroInfo_fields)
next
  case (Some ps)
  with assms have "matchedDescription ps = None" by (simp add: batteryDescription_def)
  then show ?thesis
    by (simp add: getBatteryInfo_info [OF Some] readProperties_fields zeroInfo_fields Let_def
             split: option.splits)
qed

lemma batteryDescription_Some_fields:
  assumes "batteryDescription p = Some d"
  shows "currentCapacity (fst (getBatteryInfo p)) =
           (case psCurrentCapacity d of None \<Rightarrow> 0 | Some n \<Rightarrow> n)"
    and "isCharging (fst (getBatteryInfo p)) = (if psIsCharging d = Some True then 1 else 0)"
    and "isPlugged (fst (getBatteryInfo p)) =
           (if psPowerSourceState d = Some kIOPSACPowerValue then 1 else 0)"
    and "timeToEmpty (fst (getBatteryInfo p)) =
           (case psTimeToEmpty d of None \<Rightarrow> 0 | Some n \<Rightarrow> n)"
    and "timeToFull (fst (getBatteryInfo p)) =
           (case psTimeToFullCharge d of None \<Rightarrow> 0 | Some n \<Rightarrow> n)"
proof -
  from assms obtain ps where ps: "listedSources p = Some ps" and m: "matchedDescription ps = Some d"
    by (auto simp: batteryDescription_def split: option.splits)
  note f = getBatteryInfo_info [OF ps] m readProperties_fields readDescription_fields zeroInfo_fields
    Let_def
  show "currentCapacity (fst (getBatteryInfo p)) =
           (case psCurrentCapacity d of None \<Rightarrow> 0 | Some n \<Rightarrow> n)"
    by (simp add: f split: option.splits)
  show "isCharging (fst (getBatteryInfo p)) = (if psIsCharging d = Some True then 1 else 0)"
    by (simp add: f split: option.splits)
  show "isPlugged (fst (getBatteryInfo p)) =
           (if psPowerSourceState d = Some kIOPSACPowerValue then 1 else 0)"
    by (simp add: f split: option.splits)
  show "timeToEmpty (fst (getBatteryInfo p)) =
           (case psTimeToEmpty d of None \<Rightarrow> 0 | Some n \<Rightarrow> n)"
    by (simp add: f split: option.splits)
  show "timeToFull (fst (getBatteryInfo p)) =
           (case psTimeToFullCharge d of None \<Rightarrow> 0 | Some n \<Rightarrow> n)"
    by (simp add: f split: option.splits)
qed

lemma registry_fields:
  "maxCapacity (fst (getBatteryInfo p)) =
     (case listedSources p of None \<Rightarrow> 0 | Some ps \<Rightarrow>
        (case registryProperties p of None \<Rightarrow> 0 | Some r \<Rightarrow>
           (case regAppleRawMaxCapacity r of None \<Rightarrow> 0 | Some n \<Rightarrow> n)))"
  "designCapacity (fst (getBatteryInfo p)) =
     (case listedSources p of None \<Rightarrow> 0 | Some ps \<Rightarrow>
        (case registryProperties p of None \<Rightarrow> 0 | Some r \<Rightarrow>
           (case regDesignCapacity r of None \<Rightarrow> 0 | Some n \<Rightarrow> n)))"
  "cycleCount (fst (getBatteryInfo p)) =
     (case listedSources p of None \<Rightarrow> 0 | Some ps \<Rightarrow>
        (case registryProperties p of None \<Rightarrow> 0 | Some r \<Rightarrow>
           (case regCycleCount r of None \<Rightarrow> 0 | Some n \<Rightarrow> n)))"
  "voltage (fst (getBatteryInfo p)) =
     (case listedSources p of None \<Rightarrow> 0 | Some ps \<Rightarrow>
        (case registryProperties p of None \<Rightarrow> 0 | Some r \<Rightarrow>
           (case regVoltage r of None \<Rightarrow> 0 | Some n \<Rightarrow> n)))"
  "amperage (fst (getBatteryInfo p)) =
     (case listedSources p of None \<Rightarrow> 0 | Some ps \<Rightarrow>
        (case registryProperties p of None \<Rightarrow> 0 | Some r \<Rightarrow>
           (case regAmperage r of None \<Rightarrow> 0 | Some n \<Rightarrow> n)))"
  by (simp_all add: getBatteryInfo_info getBatteryInfo_unlisted readProperties_fields
        readDescription_fields zeroInfo_fields Let_def split: option.splits)

lemma getBatteryInfo_trace:
  assumes "listedSources p = Some ps"
  shows "\<exists>k \<le> length ps. snd (getBatteryInfo p) =
     Acquire H_powerInfo # Acquire H_powerSources # map Examine [0..<k] @
     Release H_powerSources # Release H_powerInfo # RegistryLookup #
       (case IOServiceGetMatchingService p of
          None \<Rightarrow> []
        | Some e \<Rightarrow>
            Acquire H_registryEntry #
              (case IORegistryEntryCreateCFProperties e of
                 None \<Rightarrow> []
               | Some r \<Rightarrow> [Acquire H_properties, Release H_properties]) @
              [Release H_registryEntry])"
proof -
  from scan_trace [of ps zeroInfo "[Acquire H_powerInfo, Acquire H_powerSources]"]
  obtain k where k: "k \<le> length ps"
    and s: "snd (scanPowerSources ps 0 (zeroInfo, [Acquire H_powerInfo, Acquire H_powerSources])) =
            [Acquire H_powerInfo, Acquire H_powerSources] @ map Examine [0..<k]"
    by blast
  have "snd (getBatteryInfo p) =
     Acquire H_powerInfo # Acquire H_powerSources # map Examine [0..<k] @
     Release H_powerSources # Release H_powerInfo # RegistryLookup #
       (case IOServiceGetMatchingService p of
          None \<Rightarrow> []
        | Some e \<Rightarrow>
            Acquire H_registryEntry #
              (case IORegistryEntryCreateCFProperties e of
                 None \<Rightarrow> []
               | Some r \<Rightarrow> [Acquire H_properties, Release H_properties]) @
              [Release H_registryEntry])"
    by (simp add: getBatteryInfo_listed [OF assms] readRegistry_trace s)
  with k show ?thesis by blast
qed

lemma getBatteryInfo_trace_unlisted:
  assumes "listedSources p = None"
  shows "snd (getBatteryInfo p) =
     (case IOPSCopyPowerSourcesInfo p of
        None \<Rightarrow> []
      | Some powerInfo \<Rightarrow> [Acquire H_powerInfo, Release H_powerInfo])"
  using assms
  by (simp add: listedSources_def getBatteryInfo_noInfo getBatteryInfo_noList
           split: option.splits)

lemma listedSources_info:
  "listedSources p = Some ps \<Longrightarrow> IOPSCopyPowerSourcesInfo p \<noteq> None"
  by (auto simp: listedSources_def split: option.splits)

lemma handlesOk_examine [simp]:
  "handlesOk live (map Examine xs @ es) = handlesOk live es"
  by (induction xs) simp_all

lemma count_examine [simp]:
  "count_list (map Examine xs) (Acquire h) = 0"
  "count_list (map Examine xs) (Release h) = 0"
  by (induction xs) simp_all

lemma set_examine [simp]:
  "Acquire h \<notin> set (map Examine xs)" "Release h \<notin> set (map Examine xs)"
  "RegistryLookup \<notin> set (map Examine xs)"
  by auto

lemma examined_append [simp]: "examined (xs @ ys) = examined xs @ examined ys"
  by (induction xs rule: examined.induct) simp_all

lemma examined_map_Examine [simp]: "examined (map Examine xs) = xs"
  by (induction xs) simp_all

lemma examined_first:
  assumes "listedSources p = Some (pre @ e # post)"
    and "\<forall>s \<in> set pre. \<not> isInternalBattery s"
    and "IOPSGetPowerSourceDescription e = Some d"
    and "psType d = Some kIOPSInternalBatteryType"
  shows "examined (snd (getBatteryInfo p)) = [0..<Suc (length pre)]"
  by (simp add: getBatteryInfo_listed [OF assms(1)] scan_first [OF assms(2,3,4)]
        readRegistry_trace split: option.splits)

lemma examined_none:
  assumes "listedSources p = Some ps" and "\<forall>s \<in> set ps. \<not> isInternalBattery s"
  shows "examined (snd (getBatteryInfo p)) = [0..<length ps]"
  by (simp add: getBatteryInfo_listed [OF assms(1)] scan_none [OF assms(2)]
        readRegistry_trace split: option.splits)

lemma batteryDescription_first:
  assumes "listedSources p = Some (pre @ e # post)"
    and "\<forall>s \<in> set pre. \<not> isInternalBattery s"
    and "IOPSGetPowerSourceDescription e = Some d"
    and "psType d = Some kIOPSInternalBatteryType"
  shows "batteryDescription p = Some d"
  by (simp add: batteryDescription_def assms(1) matchedDescription_first [OF assms(2,3,4)])

lemma batteryDescription_none:
  assumes "listedSources p = Some ps" and "\<forall>s \<in> set ps. \<not> isInternalBattery s"
  shows "batteryDescription p = None"
  using assms by (simp add: batteryDescription_def matchedDescription_None)

section \<open>The example platforms evaluated\<close>

lemma laptopSparse_battery: "batteryDescription laptopSparse = Some batterySparse"
  by (simp add: batteryDescription_def listedSources_def matchedDescription_def
        isInternalBattery_def kIOPSInternalBatteryType_def laptopSparse_def batterySparse_def)

lemma laptopSparse_registry: "registryProperties laptopSparse = Some registrySparse"
  by (simp add: registryProperties_def laptopSparse_def)

lemma laptop_listed: "listedSources laptop \<noteq> None"
  by (simp add: listedSources_def laptop_def)

lemma laptop_registry: "registryProperties laptop = Some smartBattery"
  by (simp add: registryProperties_def laptop_def)

lemma example_not_battery:
  "\<not> isInternalBattery (PowerSource None)"
  "\<not> isInternalBattery (PowerSource (Some upsDescription))"
  by (simp_all add: isInternalBattery_def upsDescription_def kIOPSInternalBatteryType_def)

lemma batteryCharging_fields:
  "psType batteryCharging = Some kIOPSInternalBatteryType"
  "psCurrentCapacity batteryCharging = Some 87"
  "psIsCharging batteryCharging = Some True"
  "psPowerSourceState batteryCharging = Some kIOPSACPowerValue"
  "psTimeToEmpty batteryCharging = Some 0"
  "psTimeToFullCharge batteryCharging = Some 45"
  by (simp_all add: batteryCharging_def kIOPSInternalBatteryType_def kIOPSACPowerValue_def)

lemma laptop_sources:
  "listedSources laptop =
     Some ([PowerSource None, PowerSource (Some upsDescription)] @
           PowerSource (Some batteryCharging) # [PowerSource (Some batteryDraining)])"
  by (simp add: listedSources_def laptop_def)

lemma desktopUPS_sources:
  "listedSources desktopUPS = Some [PowerSource (Some upsDescription)]"
  by (simp add: listedSources_def desktopUPS_def)

lemma single_battery:
  "psType d = Some kIOPSInternalBatteryType \<Longrightarrow>
   IOPSCopyPowerSourcesInfo p = Some (PowerSourcesInfo (Some [PowerSource (Some d)])) \<Longrightarrow>
   batteryDescription p = Some d"
  by (simp add: batteryDescription_def listedSources_def matchedDescription_def
        isInternalBattery_def)

lemma laptop_battery: "batteryDescription laptop = Some batteryCharging"
  using batteryDescription_first [OF laptop_sources, of batteryCharging]
  by (simp add: example_not_battery batteryCharging_fields)

lemma laptopOverRange_battery: "batteryDescription laptopOverRange = Some batteryOverRange"
  by (rule single_battery)
     (simp_all add: batteryOverRange_def laptopOverRange_def kIOPSInternalBatteryType_def)

lemma laptopFull_battery: "batteryDescription laptopFull = Some batteryFull"
  by (rule single_battery)
     (simp_all add: batteryFull_def laptopFull_def kIOPSInternalBatteryType_def)

lemma desktopUPS_no_battery: "batteryDescription desktopUPS = None"
  by (rule batteryDescription_none [OF desktopUPS_sources]) (simp add: example_not_battery)

lemma desktopUPS_registry: "registryProperties desktopUPS = Some smartBattery"
  by (simp add: registryProperties_def desktopUPS_def)

section \<open>The claims\<close>

text \<open>
  C1. \<^verbatim>\<open>getBatteryInfo\<close> takes no input and never fails visibly. The model is a total
  function of the platform state (the loop terminates on every list, see the termination
  proof of \<open>scanPowerSources\<close>), so every call returns a snapshot with all ten fields set.
  Every lookup that fails leaves its fields at zero: no power-source blob or no list gives
  the all-zero snapshot; no internal-battery entry (no entry, no description or no type)
  leaves the five power-source fields at zero; a key missing from the matched description
  or from the registry dictionary leaves its own field at zero; a registry entry that is
  not found or whose dictionary cannot be read leaves the five registry fields at zero.
\<close>

theorem getBatteryInfo_defaults:
  "(IOPSCopyPowerSourcesInfo p = None \<longrightarrow> fst (getBatteryInfo p) = zeroInfo) \<and>
   (listedSources p = None \<longrightarrow> fst (getBatteryInfo p) = zeroInfo) \<and>
   (batteryDescription p = None \<longrightarrow>
      currentCapacity (fst (getBatteryInfo p)) = 0 \<and> isCharging (fst (getBatteryInfo p)) = 0 \<and>
      isPlugged (fst (getBatteryInfo p)) = 0 \<and> timeToEmpty (fst (getBatteryInfo p)) = 0 \<and>
      timeToFull (fst (getBatteryInfo p)) = 0) \<and>
   (\<forall>d. batteryDescription p = Some d \<longrightarrow>
      (psCurrentCapacity d = None \<longrightarrow> currentCapacity (fst (getBatteryInfo p)) = 0) \<and>
      (psIsCharging d = None \<longrightarrow> isCharging (fst (getBatteryInfo p)) = 0) \<and>
      (psPowerSourceState d = None \<longrightarrow> isPlugged (fst (getBatteryInfo p)) = 0) \<and>
      (psTimeToEmpty d = None \<longrightarrow> timeToEmpty (fst (getBatteryInfo p)) = 0) \<and>
      (psTimeToFullCharge d = None \<longrightarrow> timeToFull (fst (getBatteryInfo p)) = 0)) \<and>
   (registryProperties p = None \<longrightarrow>
      maxCapacity (fst (getBatteryInfo p)) = 0 \<and> designCapacity (fst (getBatteryInfo p)) = 0 \<and>
      cycleCount (fst (getBatteryInfo p)) = 0 \<and> voltage (fst (getBatteryInfo p)) = 0 \<and>
      amperage (fst (getBatteryInfo p)) = 0) \<and>
   (\<forall>r. registryProperties p = Some r \<longrightarrow>
      (regAppleRawMaxCapacity r = None \<longrightarrow> maxCapacity (fst (getBatteryInfo p)) = 0) \<and>
      (regDesignCapacity r = None \<longrightarrow> designCapacity (fst (getBatteryInfo p)) = 0) \<and>
      (regCycleCount r = None \<longrightarrow> cycleCount (fst (getBatteryInfo p)) = 0) \<and>
      (regVoltage r = None \<longrightarrow> voltage (fst (getBatteryInfo p)) = 0) \<and>
      (regAmperage r = None \<longrightarrow> amperage (fst (getBatteryInfo p)) = 0))"
proof (intro conjI impI allI)
  assume "IOPSCopyPowerSourcesInfo p = None"
  then show "fst (getBatteryInfo p) = zeroInfo" by (simp add: getBatteryInfo_noInfo)
next
  assume "listedSources p = None"
  then show "fst (getBatteryInfo p) = zeroInfo" by (rule getBatteryInfo_unlisted)
next
  assume n: "batteryDescription p = None"
  from batteryDescription_None_fields [OF n]
  show "currentCapacity (fst (getBatteryInfo p)) = 0" "isCharging (fst (getBatteryInfo p)) = 0"
    "isPlugged (fst (getBatteryInfo p)) = 0" "timeToEmpty (fst (getBatteryInfo p)) = 0"
    "timeToFull (fst (getBatteryInfo p)) = 0"
    by simp_all
next
  fix d assume d: "batteryDescription p = Some d"
  { assume "psCurrentCapacity d = None"
    then show "currentCapacity (fst (getBatteryInfo p)) = 0"
      by (simp add: batteryDescription_Some_fields(1) [OF d]) }
  { assume "psIsCharging d = None"
    then show "isCharging (fst (getBatteryInfo p)) = 0"
      by (simp add: batteryDescription_Some_fields(2) [OF d]) }
  { assume "psPowerSourceState d = None"
    then show "isPlugged (fst (getBatteryInfo p)) = 0"
      by (simp add: batteryDescription_Some_fields(3) [OF d]) }
  { assume "psTimeToEmpty d = None"
    then show "timeToEmpty (fst (getBatteryInfo p)) = 0"
      by (simp add: batteryDescription_Some_fields(4) [OF d]) }
  { assume "psTimeToFullCharge d = None"
    then show "timeToFull (fst (getBatteryInfo p)) = 0"
      by (simp add: batteryDescription_Some_fields(5) [OF d]) }
next
  assume "registryProperties p = None"
  then show "maxCapacity (fst (getBatteryInfo p)) = 0" "designCapacity (fst (getBatteryInfo p)) = 0"
    "cycleCount (fst (getBatteryInfo p)) = 0" "voltage (fst (getBatteryInfo p)) = 0"
    "amperage (fst (getBatteryInfo p)) = 0"
    by (simp_all add: registry_fields split: option.splits)
next
  fix r assume r: "registryProperties p = Some r"
  { assume "regAppleRawMaxCapacity r = None"
    then show "maxCapacity (fst (getBatteryInfo p)) = 0"
      by (simp add: registry_fields r split: option.splits) }
  { assume "regDesignCapacity r = None"
    then show "designCapacity (fst (getBatteryInfo p)) = 0"
      by (simp add: registry_fields r split: option.splits) }
  { assume "regCycleCount r = None"
    then show "cycleCount (fst (getBatteryInfo p)) = 0"
      by (simp add: registry_fields r split: option.splits) }
  { assume "regVoltage r = None"
    then show "voltage (fst (getBatteryInfo p)) = 0"
      by (simp add: registry_fields r split: option.splits) }
  { assume "regAmperage r = None"
    then show "amperage (fst (getBatteryInfo p)) = 0"
      by (simp add: registry_fields r split: option.splits) }
qed

theorem getBatteryInfo_defaults_witness:
  "fst (getBatteryInfo noPowerInfo) = zeroInfo \<and>
   fst (getBatteryInfo noSourcesList) = zeroInfo \<and>
   batteryDescription laptopSparse = Some batterySparse \<and>
   psIsCharging batterySparse = None \<and> isCharging (fst (getBatteryInfo laptopSparse)) = 0 \<and>
   psTimeToFullCharge batterySparse = None \<and> timeToFull (fst (getBatteryInfo laptopSparse)) = 0 \<and>
   registryProperties laptopSparse = Some registrySparse \<and>
   regVoltage registrySparse = None \<and> voltage (fst (getBatteryInfo laptopSparse)) = 0"
proof -
  have a: "IOPSCopyPowerSourcesInfo noPowerInfo = None" by (simp add: noPowerInfo_def)
  have b: "listedSources noSourcesList = None" by (simp add: listedSources_def noSourcesList_def)
  have c: "psIsCharging batterySparse = None" "psTimeToFullCharge batterySparse = None"
    by (simp_all add: batterySparse_def)
  have d: "regVoltage registrySparse = None" by (simp add: registrySparse_def)
  show ?thesis
    using getBatteryInfo_defaults [of noPowerInfo] getBatteryInfo_defaults [of noSourcesList]
      getBatteryInfo_defaults [of laptopSparse] a b c d laptopSparse_battery laptopSparse_registry
    by simp
qed

text \<open>
  C2. On every path of \<^verbatim>\<open>getBatteryInfo\<close>, the early returns included, each handle that
  is acquired (the power-source blob, the power-sources list, the registry entry, the
  property dictionary) is released exactly once before the function returns. The trace of
  a call keeps the discipline of handles (nothing is released that is not live, nothing is
  live at the end), every handle is acquired at most once and released as often as it is
  acquired, and a handle is acquired exactly when the platform call that yields it is
  reached and succeeds.
\<close>

theorem handles_released_once:
  "handlesOk [] (snd (getBatteryInfo p)) \<and>
   (\<forall>h. count_list (snd (getBatteryInfo p)) (Acquire h) \<le> 1 \<and>
        count_list (snd (getBatteryInfo p)) (Release h) =
        count_list (snd (getBatteryInfo p)) (Acquire h)) \<and>
   (Acquire H_powerInfo \<in> set (snd (getBatteryInfo p))) = (IOPSCopyPowerSourcesInfo p \<noteq> None) \<and>
   (Acquire H_powerSources \<in> set (snd (getBatteryInfo p))) = (listedSources p \<noteq> None) \<and>
   (Acquire H_registryEntry \<in> set (snd (getBatteryInfo p))) =
      (listedSources p \<noteq> None \<and> IOServiceGetMatchingService p \<noteq> None) \<and>
   (Acquire H_properties \<in> set (snd (getBatteryInfo p))) =
      (listedSources p \<noteq> None \<and> registryProperties p \<noteq> None)"
proof (cases "listedSources p")
  case None
  note tr = getBatteryInfo_trace_unlisted [OF None]
  have 1: "handlesOk [] (snd (getBatteryInfo p))"
    by (simp add: tr split: option.splits)
  have 2: "count_list (snd (getBatteryInfo p)) (Acquire h) \<le> 1 \<and>
        count_list (snd (getBatteryInfo p)) (Release h) =
        count_list (snd (getBatteryInfo p)) (Acquire h)" for h
    by (cases h) (simp_all add: tr split: option.splits)
  have 3: "(Acquire H_powerInfo \<in> set (snd (getBatteryInfo p))) = (IOPSCopyPowerSourcesInfo p \<noteq> None)"
    by (cases "IOPSCopyPowerSourcesInfo p") (simp_all add: tr)
  have 4: "Acquire H_powerSources \<notin> set (snd (getBatteryInfo p))"
    "Acquire H_registryEntry \<notin> set (snd (getBatteryInfo p))"
    "Acquire H_properties \<notin> set (snd (getBatteryInfo p))"
    by (simp_all add: tr split: option.splits)
  from 1 2 3 4 None show ?thesis by simp
next
  case (Some ps)
  from getBatteryInfo_trace [OF Some] obtain k where
    tr: "snd (getBatteryInfo p) =
     Acquire H_powerInfo # Acquire H_powerSources # map Examine [0..<k] @
     Release H_powerSources # Release H_powerInfo # RegistryLookup #
       (case IOServiceGetMatchingService p of
          None \<Rightarrow> []
        | Some e \<Rightarrow>
            Acquire H_registryEntry #
              (case IORegistryEntryCreateCFProperties e of
                 None \<Rightarrow> []
               | Some r \<Rightarrow> [Acquire H_properties, Release H_properties]) @
              [Release H_registryEntry])"
    by blast
  have 1: "handlesOk [] (snd (getBatteryInfo p))"
    by (simp add: tr split: option.splits)
  have 2: "count_list (snd (getBatteryInfo p)) (Acquire h) \<le> 1 \<and>
        count_list (snd (getBatteryInfo p)) (Release h) =
        count_list (snd (getBatteryInfo p)) (Acquire h)" for h
    by (cases h) (simp_all add: tr split: option.splits)
  have 3: "Acquire H_powerInfo \<in> set (snd (getBatteryInfo p))"
    "Acquire H_powerSources \<in> set (snd (getBatteryInfo p))"
    by (simp_all add: tr)
  have 4: "(Acquire H_registryEntry \<in> set (snd (getBatteryInfo p))) =
      (IOServiceGetMatchingService p \<noteq> None)"
    by (cases "IOServiceGetMatchingService p") (auto simp: tr split: option.splits)
  have 5: "(Acquire H_properties \<in> set (snd (getBatteryInfo p))) = (registryProperties p \<noteq> None)"
  proof (cases "IOServiceGetMatchingService p")
    case None
    then show ?thesis by (auto simp: tr registryProperties_def)
  next
    case e: (Some e)
    show ?thesis
      by (cases "IORegistryEntryCreateCFProperties e") (auto simp: tr registryProperties_def e)
  qed
  from 1 2 3 4 5 Some listedSources_info [OF Some] show ?thesis by simp
qed



theorem handles_released_once_witness:
  "handlesOk [] (snd (getBatteryInfo laptop)) \<and>
   count_list (snd (getBatteryInfo laptop)) (Release H_powerInfo) = 1 \<and>
   count_list (snd (getBatteryInfo laptop)) (Release H_powerSources) = 1 \<and>
   count_list (snd (getBatteryInfo laptop)) (Release H_registryEntry) = 1 \<and>
   count_list (snd (getBatteryInfo laptop)) (Release H_properties) = 1"
proof -
  note t = handles_released_once [of laptop]
  have s: "IOPSCopyPowerSourcesInfo laptop \<noteq> None" "IOServiceGetMatchingService laptop \<noteq> None"
    by (simp_all add: laptop_def)
  have "Acquire h \<in> set (snd (getBatteryInfo laptop))" for h
    using t s laptop_listed laptop_registry by (cases h) simp_all
  then have pos: "0 < count_list (snd (getBatteryInfo laptop)) (Acquire h)" for h
    using count_list_0_iff [of "snd (getBatteryInfo laptop)" "Acquire h"] by simp
  have "count_list (snd (getBatteryInfo laptop)) (Release h) = 1" for h
  proof -
    from t have "count_list (snd (getBatteryInfo laptop)) (Acquire h) \<le> 1"
      and "count_list (snd (getBatteryInfo laptop)) (Release h) =
           count_list (snd (getBatteryInfo laptop)) (Acquire h)"
      by blast+
    with pos [of h] show ?thesis by simp
  qed
  with t show ?thesis by blast
qed

text \<open>
  C3. If the power-source blob cannot be opened, \<^verbatim>\<open>getBatteryInfo\<close> returns the all-zero
  snapshot at once, with no platform object touched. If the blob opens and the list of
  power sources is unavailable, it releases the blob and returns the all-zero snapshot. In
  both cases the registry is never asked; it is asked on every other path.
\<close>

theorem early_returns:
  "(IOPSCopyPowerSourcesInfo p = None \<longrightarrow> getBatteryInfo p = (zeroInfo, [])) \<and>
   (\<forall>powerInfo. IOPSCopyPowerSourcesInfo p = Some powerInfo \<and>
        IOPSCopyPowerSourcesList powerInfo = None \<longrightarrow>
        getBatteryInfo p = (zeroInfo, [Acquire H_powerInfo, Release H_powerInfo])) \<and>
   (RegistryLookup \<in> set (snd (getBatteryInfo p))) = (listedSources p \<noteq> None)"
proof (intro conjI impI allI)
  assume "IOPSCopyPowerSourcesInfo p = None"
  then show "getBatteryInfo p = (zeroInfo, [])" by (rule getBatteryInfo_noInfo)
next
  fix powerInfo
  assume "IOPSCopyPowerSourcesInfo p = Some powerInfo \<and> IOPSCopyPowerSourcesList powerInfo = None"
  then show "getBatteryInfo p = (zeroInfo, [Acquire H_powerInfo, Release H_powerInfo])"
    by (simp add: getBatteryInfo_noList)
next
  show "(RegistryLookup \<in> set (snd (getBatteryInfo p))) = (listedSources p \<noteq> None)"
  proof (cases "listedSources p")
    case None
    then show ?thesis by (simp add: getBatteryInfo_trace_unlisted split: option.splits)
  next
    case (Some ps)
    from getBatteryInfo_trace [OF Some] obtain k es where
      "snd (getBatteryInfo p) =
         Acquire H_powerInfo # Acquire H_powerSources # map Examine [0..<k] @
         Release H_powerSources # Release H_powerInfo # RegistryLookup # es"
      by blast
    with Some show ?thesis by simp
  qed
qed



theorem early_returns_witness:
  "IOPSCopyPowerSourcesInfo noPowerInfo = None \<and>
   IOServiceGetMatchingService noPowerInfo = Some (RegistryEntry (Some smartBattery)) \<and>
   getBatteryInfo noPowerInfo = (zeroInfo, []) \<and>
   IOPSCopyPowerSourcesInfo noSourcesList = Some (PowerSourcesInfo None) \<and>
   IOPSCopyPowerSourcesList (PowerSourcesInfo None) = None \<and>
   getBatteryInfo noSourcesList = (zeroInfo, [Acquire H_powerInfo, Release H_powerInfo]) \<and>
   RegistryLookup \<notin> set (snd (getBatteryInfo noSourcesList)) \<and>
   RegistryLookup \<in> set (snd (getBatteryInfo laptop))"
proof -
  have a: "IOPSCopyPowerSourcesInfo noPowerInfo = None"
    "IOServiceGetMatchingService noPowerInfo = Some (RegistryEntry (Some smartBattery))"
    by (simp_all add: noPowerInfo_def)
  have b: "IOPSCopyPowerSourcesInfo noSourcesList = Some (PowerSourcesInfo None)"
    by (simp add: noSourcesList_def)
  have c: "listedSources noSourcesList = None" by (simp add: listedSources_def b)
  show ?thesis
    using early_returns [of noPowerInfo] early_returns [of noSourcesList] early_returns [of laptop]
      a b c laptop_listed
    by simp
qed

text \<open>
  C4. \<^verbatim>\<open>getBatteryInfo\<close> scans the enumerated power sources in listed order and takes the
  first entry whose type is the internal-battery type. When the list is \<open>pre @ e # post\<close>
  with no internal battery in \<open>pre\<close> and \<open>e\<close> an internal battery with description \<open>d\<close>,
  the entries examined are those of the indices \<open>0\<close> to \<open>length pre\<close>, in this order, so no
  entry of \<open>post\<close> is examined, and the five power-source fields are read from \<open>d\<close> alone.
  When the list holds no internal battery, every entry is examined and the five fields
  stay zero.
\<close>

theorem first_internal_battery_wins:
  assumes "listedSources p = Some ps"
  shows "(\<forall>pre e post d.
            ps = pre @ e # post \<and> (\<forall>s \<in> set pre. \<not> isInternalBattery s) \<and>
            IOPSGetPowerSourceDescription e = Some d \<and>
            psType d = Some kIOPSInternalBatteryType \<longrightarrow>
            examined (snd (getBatteryInfo p)) = [0..<Suc (length pre)] \<and>
            currentCapacity (fst (getBatteryInfo p)) =
              (case psCurrentCapacity d of None \<Rightarrow> 0 | Some n \<Rightarrow> n) \<and>
            isCharging (fst (getBatteryInfo p)) = (if psIsCharging d = Some True then 1 else 0) \<and>
            isPlugged (fst (getBatteryInfo p)) =
              (if psPowerSourceState d = Some kIOPSACPowerValue then 1 else 0) \<and>
            timeToEmpty (fst (getBatteryInfo p)) =
              (case psTimeToEmpty d of None \<Rightarrow> 0 | Some n \<Rightarrow> n) \<and>
            timeToFull (fst (getBatteryInfo p)) =
              (case psTimeToFullCharge d of None \<Rightarrow> 0 | Some n \<Rightarrow> n)) \<and>
         ((\<forall>s \<in> set ps. \<not> isInternalBattery s) \<longrightarrow>
            examined (snd (getBatteryInfo p)) = [0..<length ps] \<and>
            currentCapacity (fst (getBatteryInfo p)) = 0 \<and>
            isCharging (fst (getBatteryInfo p)) = 0 \<and>
            isPlugged (fst (getBatteryInfo p)) = 0 \<and>
            timeToEmpty (fst (getBatteryInfo p)) = 0 \<and>
            timeToFull (fst (getBatteryInfo p)) = 0)"
proof (intro conjI allI impI)
  fix pre e post d
  assume h: "ps = pre @ e # post \<and> (\<forall>s \<in> set pre. \<not> isInternalBattery s) \<and>
            IOPSGetPowerSourceDescription e = Some d \<and>
            psType d = Some kIOPSInternalBatteryType"
  from h assms have l: "listedSources p = Some (pre @ e # post)" by simp
  from h have pre: "\<forall>s \<in> set pre. \<not> isInternalBattery s"
    and e: "IOPSGetPowerSourceDescription e = Some d"
    and t: "psType d = Some kIOPSInternalBatteryType"
    by simp_all
  note d = batteryDescription_first [OF l pre e t]
  show "examined (snd (getBatteryInfo p)) = [0..<Suc (length pre)]"
    by (rule examined_first [OF l pre e t])
  show "currentCapacity (fst (getBatteryInfo p)) =
          (case psCurrentCapacity d of None \<Rightarrow> 0 | Some n \<Rightarrow> n)"
    by (rule batteryDescription_Some_fields(1) [OF d])
  show "isCharging (fst (getBatteryInfo p)) = (if psIsCharging d = Some True then 1 else 0)"
    by (rule batteryDescription_Some_fields(2) [OF d])
  show "isPlugged (fst (getBatteryInfo p)) =
          (if psPowerSourceState d = Some kIOPSACPowerValue then 1 else 0)"
    by (rule batteryDescription_Some_fields(3) [OF d])
  show "timeToEmpty (fst (getBatteryInfo p)) =
          (case psTimeToEmpty d of None \<Rightarrow> 0 | Some n \<Rightarrow> n)"
    by (rule batteryDescription_Some_fields(4) [OF d])
  show "timeToFull (fst (getBatteryInfo p)) =
          (case psTimeToFullCharge d of None \<Rightarrow> 0 | Some n \<Rightarrow> n)"
    by (rule batteryDescription_Some_fields(5) [OF d])
next
  assume nb: "\<forall>s \<in> set ps. \<not> isInternalBattery s"
  show "examined (snd (getBatteryInfo p)) = [0..<length ps]"
    by (rule examined_none [OF assms nb])
  from batteryDescription_None_fields [OF batteryDescription_none [OF assms nb]]
  show "currentCapacity (fst (getBatteryInfo p)) = 0" "isCharging (fst (getBatteryInfo p)) = 0"
    "isPlugged (fst (getBatteryInfo p)) = 0" "timeToEmpty (fst (getBatteryInfo p)) = 0"
    "timeToFull (fst (getBatteryInfo p)) = 0"
    by simp_all
qed



theorem first_internal_battery_wins_witness:
  "examined (snd (getBatteryInfo laptop)) = [0, 1, 2] \<and>
   currentCapacity (fst (getBatteryInfo laptop)) = 87 \<and>
   isCharging (fst (getBatteryInfo laptop)) = 1 \<and>
   isPlugged (fst (getBatteryInfo laptop)) = 1 \<and>
   timeToEmpty (fst (getBatteryInfo laptop)) = 0 \<and>
   timeToFull (fst (getBatteryInfo laptop)) = 45 \<and>
   examined (snd (getBatteryInfo desktopUPS)) = [0] \<and>
   currentCapacity (fst (getBatteryInfo desktopUPS)) = 0 \<and>
   isCharging (fst (getBatteryInfo desktopUPS)) = 0 \<and>
   isPlugged (fst (getBatteryInfo desktopUPS)) = 0 \<and>
   timeToEmpty (fst (getBatteryInfo desktopUPS)) = 0 \<and>
   timeToFull (fst (getBatteryInfo desktopUPS)) = 0"
proof -
  have pre: "\<forall>s \<in> set [PowerSource None, PowerSource (Some upsDescription)]. \<not> isInternalBattery s"
    by (simp add: example_not_battery)
  have ups: "\<forall>s \<in> set [PowerSource (Some upsDescription)]. \<not> isInternalBattery s"
    by (simp add: example_not_battery)
  have n: "[0..<Suc (length [PowerSource None, PowerSource (Some upsDescription)])] = [0, 1, 2]"
    "[0..<length [PowerSource (Some upsDescription)]] = [0]"
    by (simp_all add: upt_rec)
  from first_internal_battery_wins [OF laptop_sources]
  have "examined (snd (getBatteryInfo laptop)) =
          [0..<Suc (length [PowerSource None, PowerSource (Some upsDescription)])] \<and>
        currentCapacity (fst (getBatteryInfo laptop)) = 87 \<and>
        isCharging (fst (getBatteryInfo laptop)) = 1 \<and>
        isPlugged (fst (getBatteryInfo laptop)) = 1 \<and>
        timeToEmpty (fst (getBatteryInfo laptop)) = 0 \<and>
        timeToFull (fst (getBatteryInfo laptop)) = 45"
    using pre batteryCharging_fields
    by (elim conjE allE [where x = "[PowerSource None, PowerSource (Some upsDescription)]"]
          allE [where x = "PowerSource (Some batteryCharging)"]
          allE [where x = "[PowerSource (Some batteryDraining)]"]
          allE [where x = batteryCharging]) simp
  moreover from first_internal_battery_wins [OF desktopUPS_sources] ups
  have "examined (snd (getBatteryInfo desktopUPS)) = [0..<length [PowerSource (Some upsDescription)]] \<and>
        currentCapacity (fst (getBatteryInfo desktopUPS)) = 0 \<and>
        isCharging (fst (getBatteryInfo desktopUPS)) = 0 \<and>
        isPlugged (fst (getBatteryInfo desktopUPS)) = 0 \<and>
        timeToEmpty (fst (getBatteryInfo desktopUPS)) = 0 \<and>
        timeToFull (fst (getBatteryInfo desktopUPS)) = 0"
    by blast
  ultimately show ?thesis by (simp only: n)
qed

text \<open>
  C5, as stated: when the enumerated list holds no internal-battery entry the snapshot is
  zero in every field. The registry phase runs whether or not the scan found a battery, so
  this fails on a machine whose list holds only a UPS and whose registry entry is found:
  the design capacity is that of the registry.
\<close>

theorem desktopUPS_not_all_zero:
  "listedSources desktopUPS = Some [PowerSource (Some upsDescription)] \<and>
   \<not> isInternalBattery (PowerSource (Some upsDescription)) \<and>
   designCapacity (fst (getBatteryInfo desktopUPS)) = 5000 \<and>
   fst (getBatteryInfo desktopUPS) \<noteq> zeroInfo"
proof -
  have d: "designCapacity (fst (getBatteryInfo desktopUPS)) = 5000"
    by (simp add: registry_fields(2) desktopUPS_sources desktopUPS_registry smartBattery_def)
  then have "designCapacity (fst (getBatteryInfo desktopUPS)) \<noteq> designCapacity zeroInfo"
    by (simp add: zeroInfo_fields)
  then have "fst (getBatteryInfo desktopUPS) \<noteq> zeroInfo" by auto
  with d show ?thesis by (simp add: desktopUPS_sources example_not_battery)
qed

text \<open>
  C5, amended: when the enumerated list holds no internal-battery entry, the five
  power-source fields (current capacity, charging, plugged, time to empty, time to full)
  are zero; the snapshot is zero in every field when in addition the registry lookup fails,
  and otherwise it is the all-zero snapshot with the registry's properties read into it.
\<close>

theorem no_battery_snapshot:
  assumes "listedSources p = Some ps" and "\<forall>s \<in> set ps. \<not> isInternalBattery s"
  shows "currentCapacity (fst (getBatteryInfo p)) = 0 \<and>
         isCharging (fst (getBatteryInfo p)) = 0 \<and>
         isPlugged (fst (getBatteryInfo p)) = 0 \<and>
         timeToEmpty (fst (getBatteryInfo p)) = 0 \<and>
         timeToFull (fst (getBatteryInfo p)) = 0 \<and>
         (registryProperties p = None \<longrightarrow> fst (getBatteryInfo p) = zeroInfo) \<and>
         (\<forall>r. registryProperties p = Some r \<longrightarrow>
              fst (getBatteryInfo p) = readProperties r zeroInfo)"
proof -
  have m: "matchedDescription ps = None" using assms(2) by (simp add: matchedDescription_None)
  have "batteryDescription p = None" by (rule batteryDescription_none [OF assms])
  from batteryDescription_None_fields [OF this] show ?thesis
    by (simp add: getBatteryInfo_info [OF assms(1)] m Let_def)
qed



theorem no_battery_snapshot_witness:
  "fst (getBatteryInfo desktopNoService) = zeroInfo \<and>
   currentCapacity (fst (getBatteryInfo desktopUPS)) = 0 \<and>
   fst (getBatteryInfo desktopUPS) = readProperties smartBattery zeroInfo"
proof -
  have l: "listedSources desktopNoService = Some [PowerSource (Some upsDescription)]"
    by (simp add: listedSources_def desktopNoService_def)
  have r: "registryProperties desktopNoService = None"
    by (simp add: registryProperties_def desktopNoService_def)
  have ups: "\<forall>s \<in> set [PowerSource (Some upsDescription)]. \<not> isInternalBattery s"
    by (simp add: example_not_battery)
  show ?thesis
    using no_battery_snapshot [OF l ups] no_battery_snapshot [OF desktopUPS_sources ups]
      r desktopUPS_registry
    by (simp add: readProperties_fields zeroInfo_fields)
qed

text \<open>
  C6. When the registry lookup fails (the service is not found, or its property dictionary
  cannot be read), the maximum capacity, design capacity, cycle count, voltage and amperage
  of the snapshot are zero and the snapshot is the one the scan of the power sources left.
  Whatever the registry holds, the registry phase leaves the five power-source fields as
  the scan set them: \<open>readRegistry\<close> writes none of them.
\<close>

theorem registry_failure_frame:
  "(registryProperties p = None \<longrightarrow>
      maxCapacity (fst (getBatteryInfo p)) = 0 \<and> designCapacity (fst (getBatteryInfo p)) = 0 \<and>
      cycleCount (fst (getBatteryInfo p)) = 0 \<and> voltage (fst (getBatteryInfo p)) = 0 \<and>
      amperage (fst (getBatteryInfo p)) = 0) \<and>
   (\<forall>ps. listedSources p = Some ps \<and> registryProperties p = None \<longrightarrow>
      fst (getBatteryInfo p) =
      fst (scanPowerSources ps 0 (zeroInfo, [Acquire H_powerInfo, Acquire H_powerSources]))) \<and>
   (\<forall>ps. listedSources p = Some ps \<longrightarrow>
      currentCapacity (fst (getBatteryInfo p)) =
        currentCapacity (fst (scanPowerSources ps 0
          (zeroInfo, [Acquire H_powerInfo, Acquire H_powerSources]))) \<and>
      isCharging (fst (getBatteryInfo p)) =
        isCharging (fst (scanPowerSources ps 0
          (zeroInfo, [Acquire H_powerInfo, Acquire H_powerSources]))) \<and>
      isPlugged (fst (getBatteryInfo p)) =
        isPlugged (fst (scanPowerSources ps 0
          (zeroInfo, [Acquire H_powerInfo, Acquire H_powerSources]))) \<and>
      timeToEmpty (fst (getBatteryInfo p)) =
        timeToEmpty (fst (scanPowerSources ps 0
          (zeroInfo, [Acquire H_powerInfo, Acquire H_powerSources]))) \<and>
      timeToFull (fst (getBatteryInfo p)) =
        timeToFull (fst (scanPowerSources ps 0
          (zeroInfo, [Acquire H_powerInfo, Acquire H_powerSources])))) \<and>
   (\<forall>info tr.
      currentCapacity (fst (readRegistry p (info, tr))) = currentCapacity info \<and>
      isCharging (fst (readRegistry p (info, tr))) = isCharging info \<and>
      isPlugged (fst (readRegistry p (info, tr))) = isPlugged info \<and>
      timeToEmpty (fst (readRegistry p (info, tr))) = timeToEmpty info \<and>
      timeToFull (fst (readRegistry p (info, tr))) = timeToFull info)"
proof -
  have 1: "registryProperties p = None \<longrightarrow>
      maxCapacity (fst (getBatteryInfo p)) = 0 \<and> designCapacity (fst (getBatteryInfo p)) = 0 \<and>
      cycleCount (fst (getBatteryInfo p)) = 0 \<and> voltage (fst (getBatteryInfo p)) = 0 \<and>
      amperage (fst (getBatteryInfo p)) = 0"
    by (simp add: registry_fields split: option.splits)
  have frame: "currentCapacity (fst (readRegistry p (info, tr))) = currentCapacity info \<and>
      isCharging (fst (readRegistry p (info, tr))) = isCharging info \<and>
      isPlugged (fst (readRegistry p (info, tr))) = isPlugged info \<and>
      timeToEmpty (fst (readRegistry p (info, tr))) = timeToEmpty info \<and>
      timeToFull (fst (readRegistry p (info, tr))) = timeToFull info" for info tr
    by (simp add: readRegistry_info readProperties_fields split: option.splits)
  have 2: "fst (getBatteryInfo p) =
      fst (scanPowerSources ps 0 (zeroInfo, [Acquire H_powerInfo, Acquire H_powerSources]))"
    if "listedSources p = Some ps \<and> registryProperties p = None" for ps
    using that by (simp add: getBatteryInfo_listed readRegistry_info)
  have 3: "currentCapacity (fst (getBatteryInfo p)) =
        currentCapacity (fst (scanPowerSources ps 0
          (zeroInfo, [Acquire H_powerInfo, Acquire H_powerSources]))) \<and>
      isCharging (fst (getBatteryInfo p)) =
        isCharging (fst (scanPowerSources ps 0
          (zeroInfo, [Acquire H_powerInfo, Acquire H_powerSources]))) \<and>
      isPlugged (fst (getBatteryInfo p)) =
        isPlugged (fst (scanPowerSources ps 0
          (zeroInfo, [Acquire H_powerInfo, Acquire H_powerSources]))) \<and>
      timeToEmpty (fst (getBatteryInfo p)) =
        timeToEmpty (fst (scanPowerSources ps 0
          (zeroInfo, [Acquire H_powerInfo, Acquire H_powerSources]))) \<and>
      timeToFull (fst (getBatteryInfo p)) =
        timeToFull (fst (scanPowerSources ps 0
          (zeroInfo, [Acquire H_powerInfo, Acquire H_powerSources])))"
    if l: "listedSources p = Some ps" for ps
    by (simp only: getBatteryInfo_listed [OF l] frame)
  from 1 2 3 frame show ?thesis by blast
qed



theorem registry_failure_frame_witness:
  "registryProperties laptopNoService = None \<and>
   currentCapacity (fst (getBatteryInfo laptopNoService)) = 87 \<and>
   isCharging (fst (getBatteryInfo laptopNoService)) = 1 \<and>
   isPlugged (fst (getBatteryInfo laptopNoService)) = 1 \<and>
   timeToEmpty (fst (getBatteryInfo laptopNoService)) = 0 \<and>
   timeToFull (fst (getBatteryInfo laptopNoService)) = 45 \<and>
   maxCapacity (fst (getBatteryInfo laptopNoService)) = 0 \<and>
   designCapacity (fst (getBatteryInfo laptopNoService)) = 0 \<and>
   cycleCount (fst (getBatteryInfo laptopNoService)) = 0 \<and>
   voltage (fst (getBatteryInfo laptopNoService)) = 0 \<and>
   amperage (fst (getBatteryInfo laptopNoService)) = 0 \<and>
   registryProperties laptopNoProperties = None \<and>
   maxCapacity (fst (getBatteryInfo laptopNoProperties)) = 0 \<and>
   amperage (fst (getBatteryInfo laptopNoProperties)) = 0"
proof -
  have r: "registryProperties laptopNoService = None" "registryProperties laptopNoProperties = None"
    by (simp_all add: registryProperties_def laptopNoService_def laptopNoProperties_def)
  have l: "listedSources laptopNoService = Some [PowerSource (Some batteryCharging)]"
    by (simp add: listedSources_def laptopNoService_def)
  have s: "scanPowerSources [PowerSource (Some batteryCharging)] 0
             (zeroInfo, [Acquire H_powerInfo, Acquire H_powerSources]) =
           (readDescription batteryCharging zeroInfo,
            [Acquire H_powerInfo, Acquire H_powerSources] @ [Examine 0])"
    by (rule scan_match) (simp_all add: batteryCharging_fields)
  show ?thesis
    using registry_failure_frame [of laptopNoService] registry_failure_frame [of laptopNoProperties]
      r l s
    by (simp add: readDescription_fields batteryCharging_fields zeroInfo_fields)
qed

text \<open>
  C7, as stated: the current capacity lies between 0 and 100 whenever an internal battery
  is present. The function stores the number found under the current-capacity key as it
  is, with no check of its range, so a description that reports 150 gives 150.
\<close>

theorem laptopOverRange_capacity:
  "batteryDescription laptopOverRange = Some batteryOverRange \<and>
   sint (currentCapacity (fst (getBatteryInfo laptopOverRange))) = 150 \<and>
   \<not> sint (currentCapacity (fst (getBatteryInfo laptopOverRange))) \<le> 100"
proof -
  have "currentCapacity (fst (getBatteryInfo laptopOverRange)) = 150"
    by (simp add: batteryDescription_Some_fields(1) [OF laptopOverRange_battery]
          batteryOverRange_def)
  then show ?thesis by (simp add: laptopOverRange_battery)
qed

text \<open>
  C7, amended: the current capacity is exactly 0 when no internal battery is present; when
  one is present it is the number its description reports under the current-capacity key
  (0 when the key is missing), so it lies between 0 and 100 whenever the reported number
  does.
\<close>

theorem currentCapacity_copied:
  "(batteryDescription p = None \<longrightarrow> currentCapacity (fst (getBatteryInfo p)) = 0) \<and>
   (\<forall>d. batteryDescription p = Some d \<longrightarrow>
        currentCapacity (fst (getBatteryInfo p)) =
          (case psCurrentCapacity d of None \<Rightarrow> 0 | Some n \<Rightarrow> n)) \<and>
   (\<forall>d n. batteryDescription p = Some d \<and> psCurrentCapacity d = Some n \<and>
          0 \<le> sint n \<and> sint n \<le> 100 \<longrightarrow>
          0 \<le> sint (currentCapacity (fst (getBatteryInfo p))) \<and>
          sint (currentCapacity (fst (getBatteryInfo p))) \<le> 100)"
proof (intro conjI allI impI)
  assume "batteryDescription p = None"
  from batteryDescription_None_fields [OF this]
  show "currentCapacity (fst (getBatteryInfo p)) = 0" by simp
next
  fix d assume "batteryDescription p = Some d"
  then show "currentCapacity (fst (getBatteryInfo p)) =
          (case psCurrentCapacity d of None \<Rightarrow> 0 | Some n \<Rightarrow> n)"
    by (rule batteryDescription_Some_fields(1))
next
  fix d n
  assume h: "batteryDescription p = Some d \<and> psCurrentCapacity d = Some n \<and>
          0 \<le> sint n \<and> sint n \<le> 100"
  then have "currentCapacity (fst (getBatteryInfo p)) = n"
    by (simp add: batteryDescription_Some_fields(1))
  with h show "0 \<le> sint (currentCapacity (fst (getBatteryInfo p)))"
    and "sint (currentCapacity (fst (getBatteryInfo p))) \<le> 100"
    by simp_all
qed



theorem currentCapacity_copied_witness:
  "batteryDescription laptop = Some batteryCharging \<and>
   psCurrentCapacity batteryCharging = Some 87 \<and>
   currentCapacity (fst (getBatteryInfo laptop)) = 87 \<and>
   0 \<le> sint (currentCapacity (fst (getBatteryInfo laptop))) \<and>
   sint (currentCapacity (fst (getBatteryInfo laptop))) \<le> 100 \<and>
   batteryDescription desktopUPS = None \<and>
   currentCapacity (fst (getBatteryInfo desktopUPS)) = 0"
proof -
  have r: "0 \<le> sint (87 :: cint)" "sint (87 :: cint) \<le> 100" by simp_all
  from currentCapacity_copied [of laptop] laptop_battery batteryCharging_fields(2) r
  have "currentCapacity (fst (getBatteryInfo laptop)) = 87 \<and>
        0 \<le> sint (currentCapacity (fst (getBatteryInfo laptop))) \<and>
        sint (currentCapacity (fst (getBatteryInfo laptop))) \<le> 100"
    by simp
  moreover from currentCapacity_copied [of desktopUPS] desktopUPS_no_battery
  have "currentCapacity (fst (getBatteryInfo desktopUPS)) = 0" by simp
  ultimately show ?thesis
    using laptop_battery batteryCharging_fields(2) desktopUPS_no_battery by simp
qed

text \<open>
  C8. In every snapshot \<open>isCharging\<close> and \<open>isPlugged\<close> are 0 or 1. They are set
  independently: \<open>isCharging\<close> is 1 exactly when the matched entry's charging flag is the
  boolean true, \<open>isPlugged\<close> is 1 exactly when its power-source state equals the AC-power
  value, and some platform state gives \<open>isPlugged = 1\<close> with \<open>isCharging = 0\<close>.
\<close>

theorem charging_plugged_flags:
  "(isCharging (fst (getBatteryInfo p)) = 0 \<or> isCharging (fst (getBatteryInfo p)) = 1) \<and>
   (isPlugged (fst (getBatteryInfo p)) = 0 \<or> isPlugged (fst (getBatteryInfo p)) = 1) \<and>
   (isCharging (fst (getBatteryInfo p)) = 1) =
     (\<exists>d. batteryDescription p = Some d \<and> psIsCharging d = Some True) \<and>
   (isPlugged (fst (getBatteryInfo p)) = 1) =
     (\<exists>d. batteryDescription p = Some d \<and> psPowerSourceState d = Some kIOPSACPowerValue) \<and>
   (\<exists>q. isPlugged (fst (getBatteryInfo q)) = 1 \<and> isCharging (fst (getBatteryInfo q)) = 0)"
proof -
  have ex: "\<exists>q. isPlugged (fst (getBatteryInfo q)) = 1 \<and> isCharging (fst (getBatteryInfo q)) = 0"
  proof (intro exI conjI)
    show "isPlugged (fst (getBatteryInfo laptopFull)) = 1"
      by (simp add: batteryDescription_Some_fields(3) [OF laptopFull_battery]
            batteryFull_def kIOPSACPowerValue_def)
    show "isCharging (fst (getBatteryInfo laptopFull)) = 0"
      by (simp add: batteryDescription_Some_fields(2) [OF laptopFull_battery] batteryFull_def)
  qed
  show ?thesis
  proof (cases "batteryDescription p")
    case None
    from batteryDescription_None_fields [OF None] None ex show ?thesis by simp
  next
    case (Some d)
    from batteryDescription_Some_fields(2,3) [OF Some] Some ex show ?thesis by simp
  qed
qed



theorem charging_plugged_flags_witness:
  "batteryDescription laptopFull = Some batteryFull \<and>
   psIsCharging batteryFull = Some False \<and>
   psPowerSourceState batteryFull = Some kIOPSACPowerValue \<and>
   isPlugged (fst (getBatteryInfo laptopFull)) = 1 \<and>
   isCharging (fst (getBatteryInfo laptopFull)) = 0 \<and>
   batteryDescription laptop = Some batteryCharging \<and>
   isPlugged (fst (getBatteryInfo laptop)) = 1 \<and>
   isCharging (fst (getBatteryInfo laptop)) = 1"
proof -
  have f: "psIsCharging batteryFull = Some False"
    "psPowerSourceState batteryFull = Some kIOPSACPowerValue"
    by (simp_all add: batteryFull_def kIOPSACPowerValue_def)
  show ?thesis
    using charging_plugged_flags [of laptopFull] charging_plugged_flags [of laptop]
      laptopFull_battery laptop_battery f batteryCharging_fields(3,4)
    by auto
qed

text \<open>
  C9. In any single snapshot returned by \<^verbatim>\<open>getBatteryInfo\<close> under normal operation, the time
  to empty and the time to full are never both meaningfully non-zero. The function reads
  the two estimates from the matched entry and nothing else writes them, so the snapshot
  is as exclusive as the platform: for every reading \<open>meaningful\<close> of what a meaningful
  estimate is under which 0 is not one (non-zero, or a positive number of minutes), if the
  matched entry does not report two meaningful estimates then the snapshot does not hold
  two.
\<close>

theorem estimates_exclusive:
  assumes "\<not> meaningful 0" and "normalOperation meaningful p"
  shows "\<not> (meaningful (timeToEmpty (fst (getBatteryInfo p))) \<and>
            meaningful (timeToFull (fst (getBatteryInfo p))))"
proof (cases "batteryDescription p")
  case None
  from batteryDescription_None_fields [OF None] assms(1) show ?thesis by simp
next
  case (Some d)
  have "timeToEmpty (fst (getBatteryInfo p)) = estimateOf (psTimeToEmpty d)"
    and "timeToFull (fst (getBatteryInfo p)) = estimateOf (psTimeToFullCharge d)"
    by (simp_all add: batteryDescription_Some_fields(4,5) [OF Some] estimateOf_def)
  with assms(2) Some show ?thesis by (simp add: normalOperation_def)
qed

theorem estimates_exclusive_witness:
  "normalOperation (\<lambda>n. n \<noteq> 0) laptop \<and>
   timeToEmpty (fst (getBatteryInfo laptop)) = 0 \<and>
   timeToFull (fst (getBatteryInfo laptop)) = 45 \<and>
   \<not> (timeToEmpty (fst (getBatteryInfo laptop)) \<noteq> 0 \<and>
      timeToFull (fst (getBatteryInfo laptop)) \<noteq> 0) \<and>
   normalOperation (\<lambda>n. 0 < sint n) laptop \<and>
   \<not> (0 < sint (timeToEmpty (fst (getBatteryInfo laptop))) \<and>
      0 < sint (timeToFull (fst (getBatteryInfo laptop))))"
proof -
  have a: "normalOperation (\<lambda>n. n \<noteq> 0) laptop"
    by (simp add: normalOperation_def laptop_battery estimateOf_def batteryCharging_fields(5,6))
  have b: "normalOperation (\<lambda>n. 0 < sint n) laptop"
    by (simp add: normalOperation_def laptop_battery estimateOf_def batteryCharging_fields(5,6))
  have e: "timeToEmpty (fst (getBatteryInfo laptop)) = 0"
    by (simp add: batteryDescription_Some_fields(4) [OF laptop_battery] batteryCharging_fields(5))
  have f: "timeToFull (fst (getBatteryInfo laptop)) = 45"
    by (simp add: batteryDescription_Some_fields(5) [OF laptop_battery] batteryCharging_fields(6))
  have z: "\<not> (0 :: cint) \<noteq> 0" "\<not> 0 < sint (0 :: cint)" by simp_all
  from estimates_exclusive [of "\<lambda>n. n \<noteq> 0" laptop, OF z(1) a]
    estimates_exclusive [of "\<lambda>n. 0 < sint n" laptop, OF z(2) b] a b e f
  show ?thesis by blast
qed

text \<open>
  C10. During the scan an entry whose description is unavailable is skipped and the scan
  goes on with the next index. So an internal battery listed after a description-less
  entry (and after no other internal battery) is still found: it is the matched entry, it
  is the last entry examined, and the five power-source fields are read from it.
\<close>

theorem descriptionless_entry_skipped:
  "(\<forall>i info tr.
      i < length ps \<and> IOPSGetPowerSourceDescription (ps ! i) = None \<longrightarrow>
      scanPowerSources ps i (info, tr) = scanPowerSources ps (i + 1) (info, tr @ [Examine i])) \<and>
   (\<forall>pre x mid e post d.
      listedSources p = Some (pre @ x # mid @ e # post) \<and>
      IOPSGetPowerSourceDescription x = None \<and>
      (\<forall>s \<in> set (pre @ mid). \<not> isInternalBattery s) \<and>
      IOPSGetPowerSourceDescription e = Some d \<and>
      psType d = Some kIOPSInternalBatteryType \<longrightarrow>
      batteryDescription p = Some d \<and>
      examined (snd (getBatteryInfo p)) = [0..<length pre + length mid + 2] \<and>
      currentCapacity (fst (getBatteryInfo p)) =
        (case psCurrentCapacity d of None \<Rightarrow> 0 | Some n \<Rightarrow> n) \<and>
      isCharging (fst (getBatteryInfo p)) = (if psIsCharging d = Some True then 1 else 0) \<and>
      isPlugged (fst (getBatteryInfo p)) =
        (if psPowerSourceState d = Some kIOPSACPowerValue then 1 else 0) \<and>
      timeToEmpty (fst (getBatteryInfo p)) =
        (case psTimeToEmpty d of None \<Rightarrow> 0 | Some n \<Rightarrow> n) \<and>
      timeToFull (fst (getBatteryInfo p)) =
        (case psTimeToFullCharge d of None \<Rightarrow> 0 | Some n \<Rightarrow> n))"
proof (intro conjI allI impI)
  fix i info tr
  assume "i < length ps \<and> IOPSGetPowerSourceDescription (ps ! i) = None"
  then show "scanPowerSources ps i (info, tr) =
             scanPowerSources ps (i + 1) (info, tr @ [Examine i])"
    using scan_skip [of i ps info tr] by (simp add: isInternalBattery_def)
next
  fix pre x mid e post d
  assume h: "listedSources p = Some (pre @ x # mid @ e # post) \<and>
      IOPSGetPowerSourceDescription x = None \<and>
      (\<forall>s \<in> set (pre @ mid). \<not> isInternalBattery s) \<and>
      IOPSGetPowerSourceDescription e = Some d \<and>
      psType d = Some kIOPSInternalBatteryType"
  then have l: "listedSources p = Some ((pre @ x # mid) @ e # post)" by simp
  from h have "\<not> isInternalBattery x" by (simp add: isInternalBattery_def)
  with h have pre: "\<forall>s \<in> set (pre @ x # mid). \<not> isInternalBattery s" by auto
  from h have e: "IOPSGetPowerSourceDescription e = Some d"
    and t: "psType d = Some kIOPSInternalBatteryType"
    by simp_all
  show d: "batteryDescription p = Some d"
    by (rule batteryDescription_first [OF l pre e t])
  show "examined (snd (getBatteryInfo p)) = [0..<length pre + length mid + 2]"
    using examined_first [OF l pre e t] by simp
  show "currentCapacity (fst (getBatteryInfo p)) =
          (case psCurrentCapacity d of None \<Rightarrow> 0 | Some n \<Rightarrow> n)"
    by (rule batteryDescription_Some_fields(1) [OF d])
  show "isCharging (fst (getBatteryInfo p)) = (if psIsCharging d = Some True then 1 else 0)"
    by (rule batteryDescription_Some_fields(2) [OF d])
  show "isPlugged (fst (getBatteryInfo p)) =
          (if psPowerSourceState d = Some kIOPSACPowerValue then 1 else 0)"
    by (rule batteryDescription_Some_fields(3) [OF d])
  show "timeToEmpty (fst (getBatteryInfo p)) =
          (case psTimeToEmpty d of None \<Rightarrow> 0 | Some n \<Rightarrow> n)"
    by (rule batteryDescription_Some_fields(4) [OF d])
  show "timeToFull (fst (getBatteryInfo p)) =
          (case psTimeToFullCharge d of None \<Rightarrow> 0 | Some n \<Rightarrow> n)"
    by (rule batteryDescription_Some_fields(5) [OF d])
qed



theorem descriptionless_entry_skipped_witness:
  "listedSources laptop =
     Some ([] @ PowerSource None # [PowerSource (Some upsDescription)] @
           PowerSource (Some batteryCharging) # [PowerSource (Some batteryDraining)]) \<and>
   IOPSGetPowerSourceDescription (PowerSource None) = None \<and>
   batteryDescription laptop = Some batteryCharging \<and>
   examined (snd (getBatteryInfo laptop)) = [0, 1, 2] \<and>
   currentCapacity (fst (getBatteryInfo laptop)) = 87 \<and>
   isCharging (fst (getBatteryInfo laptop)) = 1 \<and>
   isPlugged (fst (getBatteryInfo laptop)) = 1 \<and>
   timeToEmpty (fst (getBatteryInfo laptop)) = 0 \<and>
   timeToFull (fst (getBatteryInfo laptop)) = 45 \<and>
   scanPowerSources [PowerSource None, PowerSource (Some batteryDraining)] 0 (zeroInfo, []) =
   scanPowerSources [PowerSource None, PowerSource (Some batteryDraining)] (0 + 1)
     (zeroInfo, [] @ [Examine 0])"
proof -
  have l: "listedSources laptop =
     Some ([] @ PowerSource None # [PowerSource (Some upsDescription)] @
           PowerSource (Some batteryCharging) # [PowerSource (Some batteryDraining)])"
    using laptop_sources by simp
  have mid: "\<forall>s \<in> set ([] @ [PowerSource (Some upsDescription)]). \<not> isInternalBattery s"
    by (simp add: example_not_battery)
  have n: "[0..<length ([] :: PowerSource list) + length [PowerSource (Some upsDescription)] + 2] =
           [0, 1, 2]"
    by (simp add: upt_rec)
  note t = descriptionless_entry_skipped
    [of "[PowerSource None, PowerSource (Some batteryDraining)]" laptop]
  from t have "scanPowerSources [PowerSource None, PowerSource (Some batteryDraining)] 0
                 (zeroInfo, []) =
               scanPowerSources [PowerSource None, PowerSource (Some batteryDraining)] (0 + 1)
                 (zeroInfo, [] @ [Examine 0])"
    by (elim conjE allE [where x = "0 :: nat"] allE [where x = zeroInfo]
          allE [where x = "[] :: event list"]) simp
  moreover from t l mid batteryCharging_fields
  have "batteryDescription laptop = Some batteryCharging \<and>
        examined (snd (getBatteryInfo laptop)) =
          [0..<length ([] :: PowerSource list) + length [PowerSource (Some upsDescription)] + 2] \<and>
        currentCapacity (fst (getBatteryInfo laptop)) = 87 \<and>
        isCharging (fst (getBatteryInfo laptop)) = 1 \<and>
        isPlugged (fst (getBatteryInfo laptop)) = 1 \<and>
        timeToEmpty (fst (getBatteryInfo laptop)) = 0 \<and>
        timeToFull (fst (getBatteryInfo laptop)) = 45"
    by (elim conjE allE [where x = "[] :: PowerSource list"]
          allE [where x = "PowerSource None"]
          allE [where x = "[PowerSource (Some upsDescription)]"]
          allE [where x = "PowerSource (Some batteryCharging)"]
          allE [where x = "[PowerSource (Some batteryDraining)]"]
          allE [where x = batteryCharging]) simp
  ultimately show ?thesis using l by (simp only: n PowerSource.sel)
qed

end
